theory Spec2Isabelle
  imports Complex_Main "HOL-Library.Monad_Syntax"
begin

section \<open>Conventions of the embedding\<close>

text \<open>
  The kernels of \<^verbatim>\<open>swiftmodel.py\<close> and \<^verbatim>\<open>lpf.py\<close> compute on float64 arrays and are
  compiled by numba. The embedding takes a float as an exact real (no rounding, no
  overflow) and an array as a list. Where rounding decides which branch a comparison takes
  or whether the argument of \<^verbatim>\<open>arccos\<close> lies in its domain, the exact value says nothing
  about the compiled code; a statement below that depends on such a value says that it is
  about real numbers.

  \<open>None\<close> stands for a run without a result that the inputs determine: a raised exception,
  or a read outside an array. Such a read is an \<^verbatim>\<open>IndexError\<close> in Python; the compiled
  code does not check bounds and computes with the memory behind the array. A negative index
  counts from the end. The non-finite floats that the source itself writes or tests
  (\<^verbatim>\<open>nan\<close> in the limb-darkening interpolators, \<^verbatim>\<open>isnan\<close> and \<^verbatim>\<open>inf\<close> in the population
  evaluators) are constructors of their own.

  Division by zero depends on where the division stands. In a function compiled without
  \<^verbatim>\<open>parallel=True\<close> a scalar division by zero raises \<^verbatim>\<open>ZeroDivisionError\<close>; in the body
  of a \<^verbatim>\<open>prange\<close> loop it gives the IEEE value, which is \<^verbatim>\<open>nan\<close> for \<open>0 / 0\<close>. The
  embedding follows this for the divisors \<^verbatim>\<open>dg\<close>, \<^verbatim>\<open>nk\<close>, \<^verbatim>\<open>nsamples\<close>, the node
  spacing of the limb-darkening interpolators and \<^verbatim>\<open>1 + k\<close> in
  \<^verbatim>\<open>swmodel_z_direct_serial\<close>. Every other division is the total division of HOL, and
  every statement whose result depends on such a divisor states or proves that it is not
  zero.

  The orbit functions \<^verbatim>\<open>z_ip_s\<close> and \<^verbatim>\<open>z_ip_v\<close> and the method \<^verbatim>\<open>flux_model\<close> live
  outside the two source files; the functions that call them take them as a parameter.
  A \<^verbatim>\<open>prange\<close> loop is a loop over a schedule: a list that holds every index of the range
  once, in any order.
\<close>

subsection \<open>Floats that may be NaN\<close>

datatype flt = Fin real | NaN

fun lift2 :: "(real \<Rightarrow> real \<Rightarrow> real) \<Rightarrow> flt \<Rightarrow> flt \<Rightarrow> flt" where
  "lift2 f (Fin x) (Fin y) = Fin (f x y)"
| "lift2 f _ _ = NaN"

instantiation flt :: "{zero, one, plus, minus, times, inverse, scaleR}"
begin

definition zero_flt :: flt where "zero_flt = Fin 0"
definition one_flt :: flt where "one_flt = Fin 1"
definition plus_flt :: "flt \<Rightarrow> flt \<Rightarrow> flt" where "plus_flt = lift2 (+)"
definition minus_flt :: "flt \<Rightarrow> flt \<Rightarrow> flt" where "minus_flt = lift2 (-)"
definition times_flt :: "flt \<Rightarrow> flt \<Rightarrow> flt" where "times_flt = lift2 (*)"
definition divide_flt :: "flt \<Rightarrow> flt \<Rightarrow> flt" where "divide_flt = lift2 (/)"
definition inverse_flt :: "flt \<Rightarrow> flt" where "inverse_flt a = lift2 (/) (Fin 1) a"
definition scaleR_flt :: "real \<Rightarrow> flt \<Rightarrow> flt" where "scaleR_flt r a = lift2 (*) (Fin r) a"

instance ..

end


subsection \<open>Array reads and loops that may raise\<close>

definition item :: "'a list \<Rightarrow> nat \<Rightarrow> 'a option" where
  "item xs i = (if i < length xs then Some (xs ! i) else None)"

definition pyitem :: "'a list \<Rightarrow> int \<Rightarrow> 'a option" where
  "pyitem xs i =
     (let n = int (length xs); j = (if i < 0 then n + i else i)
      in if 0 \<le> j \<and> j < n then Some (xs ! nat j) else None)"

primrec ofold :: "('a \<Rightarrow> 's \<Rightarrow> 's option) \<Rightarrow> 'a list \<Rightarrow> 's \<Rightarrow> 's option" where
  "ofold f [] s = Some s"
| "ofold f (x # xs) s = (case f x s of None \<Rightarrow> None | Some s' \<Rightarrow> ofold f xs s')"

text \<open>
  A schedule of a \<^verbatim>\<open>prange(n)\<close> loop: every index below \<open>n\<close>, once, in any order.
\<close>

definition schedule :: "nat \<Rightarrow> nat list \<Rightarrow> bool" where
  "schedule n js \<longleftrightarrow> distinct js \<and> set js = {0..<n}"

text \<open>\<^verbatim>\<open>dot\<close> of a matrix or of a vector with a vector; the sizes must agree.\<close>

definition dot_vv :: "real list \<Rightarrow> real list \<Rightarrow> real option" where
  "dot_vv u v = (if length u = length v then Some (sum_list (map2 (*) u v)) else None)"

definition dot_mv :: "real list list \<Rightarrow> real list \<Rightarrow> real list option" where
  "dot_mv ws v = those (map (\<lambda>row. dot_vv row v) ws)"

definition linspace :: "real \<Rightarrow> real \<Rightarrow> nat \<Rightarrow> real list" where
  "linspace a b n =
     (if n = 1 then [a] else map (\<lambda>i. a + real i * ((b - a) / real (n - 1))) [0..<n])"

subsection \<open>Geometry: circle-circle intersection area\<close>

definition circle_circle_intersection_area :: "real \<Rightarrow> real \<Rightarrow> real \<Rightarrow> real" where
  "circle_circle_intersection_area r1 r2 b =
     (if r1 < b - r2 then 0
      else if r1 \<ge> b + r2 then pi * r2 ^ 2
      else if b - r2 \<le> - r1 then pi * r1 ^ 2
      else (r2 ^ 2 * arccos ((b ^ 2 + r2 ^ 2 - r1 ^ 2) / (2 * b * r2)) +
            r1 ^ 2 * arccos ((b ^ 2 + r1 ^ 2 - r2 ^ 2) / (2 * b * r1)) -
            0.5 * sqrt ((- b + r2 + r1) * (b + r2 - r1) * (b - r2 + r1) * (b + r2 + r1))))"

text \<open>
  The vectorised sibling fills \<^verbatim>\<open>a = zeros(bs.size)\<close> cell by cell, with its own copy of
  the four-way case distinction.
\<close>

definition circle_circle_intersection_area_v :: "real \<Rightarrow> real \<Rightarrow> real list \<Rightarrow> real list" where
  "circle_circle_intersection_area_v r1 r2 bs =
     fold (\<lambda>i a.
        let b = bs ! i in
        if r1 < b - r2 then a[i := 0]
        else if r1 \<ge> b + r2 then a[i := pi * r2 ^ 2]
        else if b - r2 \<le> - r1 then a[i := pi * r1 ^ 2]
        else a[i := (r2 ^ 2 * arccos ((b ^ 2 + r2 ^ 2 - r1 ^ 2) / (2 * b * r2)) +
                     r1 ^ 2 * arccos ((b ^ 2 + r1 ^ 2 - r2 ^ 2) / (2 * b * r1)) -
                     0.5 * sqrt ((- b + r2 + r1) * (b + r2 - r1) * (b - r2 + r1) * (b + r2 + r1)))])
       [0..<length bs] (replicate (length bs) 0)"

text \<open>The closed form of the last branch, named for the statements below.\<close>

definition lens_area :: "real \<Rightarrow> real \<Rightarrow> real \<Rightarrow> real" where
  "lens_area r1 r2 b =
     r2 ^ 2 * arccos ((b ^ 2 + r2 ^ 2 - r1 ^ 2) / (2 * b * r2)) +
     r1 ^ 2 * arccos ((b ^ 2 + r1 ^ 2 - r2 ^ 2) / (2 * b * r1)) -
     0.5 * sqrt ((- b + r2 + r1) * (b + r2 - r1) * (b - r2 + r1) * (b + r2 + r1))"

subsection \<open>Weight builders\<close>

text \<open>
  One row of a weight table, the body of the loop over \<^verbatim>\<open>ig\<close> that
  \<^verbatim>\<open>calculate_weights_2d\<close> and \<^verbatim>\<open>calculate_weights_3d\<close> share word for word: the
  cumulative overlap area differenced along the z grid, with the running sum \<^verbatim>\<open>s\<close>, then
  divided by \<^verbatim>\<open>s\<close> in place. It reads \<^verbatim>\<open>ze[0]\<close>, so the callers raise on an empty grid.
\<close>

definition weights_row :: "real \<Rightarrow> real list \<Rightarrow> real \<Rightarrow> real list" where
  "weights_row k ze b =
     (let nz = length ze;
          a0 = circle_circle_intersection_area (ze ! 0) k b;
          w0 = (replicate nz 0)[0 := a0];
          (a, s, w) = fold (\<lambda>i (a0, s, w).
                         let a1 = circle_circle_intersection_area (ze ! i) k b;
                             w' = w[i := a1 - a0]
                         in (a1, s + w' ! i, w'))
                       [1..<nz] (a0, w0 ! 0, w0)
      in fold (\<lambda>i w. w[i := w ! i / s]) [0..<nz] w)"

definition calculate_weights_2d ::
  "real \<Rightarrow> real list \<Rightarrow> nat \<Rightarrow> (real list \<times> real \<times> real list list) option" where
  "calculate_weights_2d k ze ng =
     (let gs = linspace 0 (1 - 1 / 10 ^ 7) ng in
      if 0 < ng \<and> ze = [] then None
      else do {
        let weights = map (\<lambda>ig. weights_row k ze (gs ! ig * (1 + k))) [0..<ng];
        g1 \<leftarrow> item gs 1;
        g0 \<leftarrow> item gs 0;
        Some (gs, g1 - g0, weights)
      })"

text \<open>
  \<^verbatim>\<open>calculate_weights_3d\<close> returns \<^verbatim>\<open>(k1 - k0) / nk\<close>: with \<^verbatim>\<open>nk = 0\<close> the division
  raises.
\<close>

definition calculate_weights_3d ::
  "nat \<Rightarrow> real \<Rightarrow> real \<Rightarrow> real list \<Rightarrow> nat \<Rightarrow> (real \<times> real \<times> real list list list) option" where
  "calculate_weights_3d nk k0 k1 ze ng =
     (let ks = linspace k0 k1 nk;
          gs = linspace 0 (1 - 1 / 10 ^ 7) ng in
      if 0 < nk \<and> 0 < ng \<and> ze = [] then None
      else do {
        let weights = map (\<lambda>ik. map (\<lambda>ig. weights_row (ks ! ik) ze (gs ! ig * (1 + ks ! ik)))
                                [0..<ng]) [0..<nk];
        g1 \<leftarrow> item gs 1;
        g0 \<leftarrow> item gs 0;
        if nk = 0 then None else Some ((k1 - k0) / real nk, g1 - g0, weights)
      })"

subsection \<open>Limb-darkening interpolators\<close>

text \<open>
  The two \<^verbatim>\<open>while\<close> loops of the node search. A read out of range ends them. The
  division by the node spacing \<^verbatim>\<open>mz[i + 1] - mz[i]\<close> raises when the two nodes coincide.
\<close>

function walk_up :: "real \<Rightarrow> real list \<Rightarrow> int \<Rightarrow> int option" where
  "walk_up z mz i =
     (case pyitem mz (i + 1) of
        None \<Rightarrow> None
      | Some m \<Rightarrow> if z > m then walk_up z mz (i + 1) else Some i)"
  by pat_completeness auto
termination
  by (relation "measure (\<lambda>(z, mz, i). nat (int (length mz) - i))")
     (auto simp: pyitem_def Let_def split: if_splits)

function walk_down :: "real \<Rightarrow> real list \<Rightarrow> int \<Rightarrow> int option" where
  "walk_down z mz i =
     (case pyitem mz i of
        None \<Rightarrow> None
      | Some m \<Rightarrow> if z < m then walk_down z mz (i - 1) else Some i)"
  by pat_completeness auto
termination
  by (relation "measure (\<lambda>(z, mz, i). nat (int (length mz) + i + 1))")
     (auto simp: pyitem_def Let_def split: if_splits)


declare walk_up.simps [simp del] walk_down.simps [simp del]

definition interpolate_limb_darkening_s :: "real \<Rightarrow> real list \<Rightarrow> real list \<Rightarrow> flt option" where
  "interpolate_limb_darkening_s z mz ldp =
     (if z < 0 then Some NaN
      else do {
        mlast \<leftarrow> pyitem mz (- 1);
        if z > mlast then do { l \<leftarrow> pyitem ldp (- 1); Some (Fin l) }
        else do {
          let i0 = int (length mz div 2);
          m \<leftarrow> pyitem mz i0;
          i \<leftarrow> (if z > m then walk_up z mz i0 else walk_down z mz i0);
          mi \<leftarrow> pyitem mz i;
          mi1 \<leftarrow> pyitem mz (i + 1);
          if mi1 - mi = 0 then None
          else do {
            let a = (z - mi) / (mi1 - mi);
            li \<leftarrow> pyitem ldp i;
            li1 \<leftarrow> pyitem ldp (i + 1);
            Some (Fin ((1 - a) * li + a * li1))
          }
        }
      })"

text \<open>The vectorised sibling repeats the body for every \<^verbatim>\<open>iz\<close> and stores into \<^verbatim>\<open>ld\<close>.\<close>

definition interpolate_limb_darkening_v ::
  "real list \<Rightarrow> real list \<Rightarrow> real list \<Rightarrow> flt list option" where
  "interpolate_limb_darkening_v zs mz ldp =
     ofold (\<lambda>iz ld.
        let z = zs ! iz in
        if z < 0 then Some (ld[iz := NaN])
        else do {
          mlast \<leftarrow> pyitem mz (- 1);
          if z > mlast then do { l \<leftarrow> pyitem ldp (- 1); Some (ld[iz := Fin l]) }
          else do {
            let i0 = int (length mz div 2);
            m \<leftarrow> pyitem mz i0;
            i \<leftarrow> (if z > m then walk_up z mz i0 else walk_down z mz i0);
            mi \<leftarrow> pyitem mz i;
            mi1 \<leftarrow> pyitem mz (i + 1);
            if mi1 - mi = 0 then None
            else do {
              let a = (z - mi) / (mi1 - mi);
              li \<leftarrow> pyitem ldp i;
              li1 \<leftarrow> pyitem ldp (i + 1);
              Some (ld[iz := Fin ((1 - a) * li + a * li1)])
            }
          }
        })
       [0..<length zs] (replicate (length zs) (Fin 0))"

subsection \<open>Interpolation in the grazing-parameter tables\<close>

text \<open>
  \<^verbatim>\<open>lerp\<close> is applied to tables of reals and, in the population evaluators, to a table
  that is NaN throughout; its element type is left open. The division \<^verbatim>\<open>g / dg\<close> raises
  when \<^verbatim>\<open>dg\<close> is zero.
\<close>

definition lerp :: "real \<Rightarrow> real \<Rightarrow> ('a :: {zero, plus, scaleR}) list \<Rightarrow> 'a option" where
  "lerp g dg ldw =
     (if g \<ge> 1 then Some 0
      else if dg = 0 then None
      else
        let ng = g / dg;
            ig = \<lfloor>ng\<rfloor>;
            ag = ng - of_int ig
        in do {
          l0 \<leftarrow> pyitem ldw ig;
          l1 \<leftarrow> pyitem ldw (ig + 1);
          Some ((1 - ag) *\<^sub>R l0 + ag *\<^sub>R l1)
        })"

definition im_p_s :: "real \<Rightarrow> real \<Rightarrow> real list list \<Rightarrow> real list \<Rightarrow> real option" where
  "im_p_s g dg weights ldp =
     (if g \<ge> 1 then Some 0
      else if dg = 0 then None
      else
        let ng = g / dg;
            ig = \<lfloor>ng\<rfloor>;
            ag = ng - of_int ig
        in do {
          w0 \<leftarrow> pyitem weights ig;
          d0 \<leftarrow> dot_vv w0 ldp;
          w1 \<leftarrow> pyitem weights (ig + 1);
          d1 \<leftarrow> dot_vv w1 ldp;
          Some ((1 - ag) * d0 + ag * d1)
        })"

text \<open>
  \<^verbatim>\<open>im_p_s_3d\<close>: the source divides \<^verbatim>\<open>k - k0\<close> by \<^verbatim>\<open>dg\<close>; the parameter \<^verbatim>\<open>dk\<close> is not
  read.
\<close>

definition im_p_s_3d ::
  "real \<Rightarrow> real \<Rightarrow> real \<Rightarrow> real \<Rightarrow> real list list list \<Rightarrow> real list \<Rightarrow> real \<Rightarrow> real option" where
  "im_p_s_3d k g dk dg weights ldp k0 =
     (if g \<ge> 1 then Some 0
      else if dg = 0 then None
      else
        let nk = (k - k0) / dg;
            ik = \<lfloor>nk\<rfloor>;
            ak1 = nk - of_int ik;
            ak2 = 1 - ak1;
            ng = g / dg;
            ig = \<lfloor>ng\<rfloor>;
            ag1 = ng - of_int ig;
            ag2 = 1 - ag1
        in do {
          wk \<leftarrow> pyitem weights ik;
          w00 \<leftarrow> pyitem wk ig;
          l00 \<leftarrow> dot_vv w00 ldp;
          w01 \<leftarrow> pyitem wk (ig + 1);
          l01 \<leftarrow> dot_vv w01 ldp;
          wk1 \<leftarrow> pyitem weights (ik + 1);
          w10 \<leftarrow> pyitem wk1 ig;
          l10 \<leftarrow> dot_vv w10 ldp;
          w11 \<leftarrow> pyitem wk1 (ig + 1);
          l11 \<leftarrow> dot_vv w11 ldp;
          Some (l00 * ak2 * ag2 + l10 * ak1 * ag2 + l01 * ak2 * ag1 + l11 * ak1 * ag1)
        })"

definition im_p_v2 :: "real list \<Rightarrow> real \<Rightarrow> real list \<Rightarrow> real list option" where
  "im_p_v2 gs dg ldw =
     ofold (\<lambda>i im.
        if gs ! i \<ge> 1 then Some (im[i := 0])
        else if dg = 0 then None
        else
          let ng = gs ! i / dg;
              ig = \<lfloor>ng\<rfloor>;
              ag = ng - of_int ig
          in do {
            l0 \<leftarrow> pyitem ldw ig;
            l1 \<leftarrow> pyitem ldw (ig + 1);
            Some (im[i := (1 - ag) * l0 + ag * l1])
          })
       [0..<length gs] (replicate (length gs) 0)"



subsection \<open>Flux evaluators on a series of separations\<close>



subsection \<open>Flux evaluators for one parameter vector\<close>

text \<open>
  The orbit parameters \<^verbatim>\<open>t0, p, a, i, e, w\<close> are only handed on to \<^verbatim>\<open>z_ip_s\<close>; they
  travel as one tuple. The tables \<^verbatim>\<open>es, ms, tae\<close> belong to the orbit function and are part
  of the parameter that stands for it. \<^verbatim>\<open>ldp\<close> and \<^verbatim>\<open>istar\<close> keep their leading axis of
  length one.
\<close>

type_synonym orbit = "real \<times> real \<times> real \<times> real \<times> real \<times> real"

definition swmodel_direct_s_simple ::
  "(real list \<Rightarrow> orbit \<Rightarrow> real list) \<Rightarrow> real list \<Rightarrow> real list \<Rightarrow> orbit \<Rightarrow> real list list list \<Rightarrow>
   real list list \<Rightarrow> real list \<Rightarrow> real list \<Rightarrow> nat \<Rightarrow> real \<Rightarrow> flt list option" where
  "swmodel_direct_s_simple z_ip_v t k orb ldp istar ze zm ng splimit =
     do {
       let z = z_ip_v t orb;
       k0 \<leftarrow> item k 0;
       iplanet \<leftarrow>
         (if k0 > splimit then do {
            (gs, dg, weights) \<leftarrow> calculate_weights_2d k0 ze ng;
            l0 \<leftarrow> item ldp 0;
            l00 \<leftarrow> item l0 0;
            ldw \<leftarrow> dot_mv weights l00;
            im \<leftarrow> im_p_v2 (map (\<lambda>x. x / (1 + k0)) z) dg ldw;
            Some (map Fin im)
          }
          else do {
            l0 \<leftarrow> item ldp 0;
            l00 \<leftarrow> item l0 0;
            interpolate_limb_darkening_v z zm l00
          });
       let aplanet = circle_circle_intersection_area_v 1 k0 z;
       i0 \<leftarrow> item istar 0;
       i00 \<leftarrow> item i0 0;
       Some (map2 (\<lambda>ip ap. (Fin i00 - ip * Fin ap) / Fin i00) iplanet aplanet)
     }"



text \<open>
  The body of the loop over the points \<^verbatim>\<open>j\<close> of \<^verbatim>\<open>_eval_s_serial\<close>: the value that
  \<^verbatim>\<open>flux[j]\<close>, zero before, holds after it. The last statement,
  \<^verbatim>\<open>flux[j] /= nsamples[ilc]\<close>, raises when the light curve has no samples.
\<close>

definition eval_s_point ::
  "(real \<Rightarrow> orbit \<Rightarrow> real) \<Rightarrow> real list \<Rightarrow> real list \<Rightarrow> orbit \<Rightarrow> real list list \<Rightarrow> real list \<Rightarrow>
   real \<Rightarrow> real list list list \<Rightarrow> real list list \<Rightarrow> real \<Rightarrow> nat list \<Rightarrow> nat list \<Rightarrow> nat list \<Rightarrow>
   real list \<Rightarrow> nat \<Rightarrow> flt option" where
  "eval_s_point z_ip_s t k orb istar zm dg ldp ldw splimit lcids pbids nsamples exptimes j =
     do {
       ilc \<leftarrow> item lcids j;
       ipb \<leftarrow> item pbids ilc;
       kk \<leftarrow> (if length k = 1 then item k 0 else item k ipb);
       ns \<leftarrow> item nsamples ilc;
       f \<leftarrow> ofold (\<lambda>isample f. do {
                et \<leftarrow> item exptimes ilc;
                let time_offset = et * ((real isample - 0.5) / real ns - 0.5);
                tj \<leftarrow> item t j;
                let z = z_ip_s (tj + time_offset) orb;
                if z > 1 + kk then Some (f + 1)
                else do {
                  iplanet \<leftarrow>
                    (if kk > splimit then do {
                       row \<leftarrow> item ldw ipb;
                       map_option Fin (lerp (z / (1 + kk)) dg row)
                     }
                     else do {
                       l0 \<leftarrow> item ldp 0;
                       prof \<leftarrow> item l0 ipb;
                       interpolate_limb_darkening_s z zm prof
                     });
                  let aplanet = circle_circle_intersection_area 1 kk z;
                  i0 \<leftarrow> item istar 0;
                  ist \<leftarrow> item i0 ipb;
                  Some (f + (Fin ist - iplanet * Fin aplanet) / Fin ist)
                }
              })
            [1..<ns + 1] 0;
       if ns = 0 then None else Some (f / Fin (real ns))
     }"

text \<open>
  The body of the loop over the points of \<^verbatim>\<open>_eval_s_parallel\<close> is the same text, inside
  a \<^verbatim>\<open>prange\<close> loop: without samples the last statement divides \<open>0\<close> by \<open>0\<close> and stores
  \<^verbatim>\<open>nan\<close>.
\<close>

definition eval_p_point ::
  "(real \<Rightarrow> orbit \<Rightarrow> real) \<Rightarrow> real list \<Rightarrow> real list \<Rightarrow> orbit \<Rightarrow> real list list \<Rightarrow> real list \<Rightarrow>
   real \<Rightarrow> real list list list \<Rightarrow> real list list \<Rightarrow> real \<Rightarrow> nat list \<Rightarrow> nat list \<Rightarrow> nat list \<Rightarrow>
   real list \<Rightarrow> nat \<Rightarrow> flt option" where
  "eval_p_point z_ip_s t k orb istar zm dg ldp ldw splimit lcids pbids nsamples exptimes j =
     do {
       ilc \<leftarrow> item lcids j;
       ipb \<leftarrow> item pbids ilc;
       kk \<leftarrow> (if length k = 1 then item k 0 else item k ipb);
       ns \<leftarrow> item nsamples ilc;
       f \<leftarrow> ofold (\<lambda>isample f. do {
                et \<leftarrow> item exptimes ilc;
                let time_offset = et * ((real isample - 0.5) / real ns - 0.5);
                tj \<leftarrow> item t j;
                let z = z_ip_s (tj + time_offset) orb;
                if z > 1 + kk then Some (f + 1)
                else do {
                  iplanet \<leftarrow>
                    (if kk > splimit then do {
                       row \<leftarrow> item ldw ipb;
                       map_option Fin (lerp (z / (1 + kk)) dg row)
                     }
                     else do {
                       l0 \<leftarrow> item ldp 0;
                       prof \<leftarrow> item l0 ipb;
                       interpolate_limb_darkening_s z zm prof
                     });
                  let aplanet = circle_circle_intersection_area 1 kk z;
                  i0 \<leftarrow> item istar 0;
                  ist \<leftarrow> item i0 ipb;
                  Some (f + (Fin ist - iplanet * Fin aplanet) / Fin ist)
                }
              })
            [1..<ns + 1] 0;
       Some (if ns = 0 then NaN else f / Fin (real ns))
     }"

definition eval_s_serial ::
  "(real \<Rightarrow> orbit \<Rightarrow> real) \<Rightarrow> real list \<Rightarrow> real list \<Rightarrow> orbit \<Rightarrow> real list list \<Rightarrow> real list \<Rightarrow>
   real \<Rightarrow> real list list list \<Rightarrow> real list list \<Rightarrow> real \<Rightarrow> nat list \<Rightarrow> nat list \<Rightarrow> nat list \<Rightarrow>
   real list \<Rightarrow> flt list option" where
  "eval_s_serial z_ip_s t k orb istar zm dg ldp ldw splimit lcids pbids nsamples exptimes =
     ofold (\<lambda>j flux. do {
              v \<leftarrow> eval_s_point z_ip_s t k orb istar zm dg ldp ldw splimit lcids pbids
                     nsamples exptimes j;
              Some (flux[j := v])
            })
       [0..<length t] (replicate (length t) 0)"

definition eval_s_parallel ::
  "nat list \<Rightarrow> (real \<Rightarrow> orbit \<Rightarrow> real) \<Rightarrow> real list \<Rightarrow> real list \<Rightarrow> orbit \<Rightarrow> real list list \<Rightarrow>
   real list \<Rightarrow> real \<Rightarrow> real list list list \<Rightarrow> real list list \<Rightarrow> real \<Rightarrow> nat list \<Rightarrow> nat list \<Rightarrow>
   nat list \<Rightarrow> real list \<Rightarrow> flt list option" where
  "eval_s_parallel sched z_ip_s t k orb istar zm dg ldp ldw splimit lcids pbids nsamples exptimes =
     ofold (\<lambda>j flux. do {
              v \<leftarrow> eval_p_point z_ip_s t k orb istar zm dg ldp ldw splimit lcids pbids
                     nsamples exptimes j;
              Some (flux[j := v])
            })
       sched (replicate (length t) 0)"

definition swmodel_direct_s ::
  "nat list \<Rightarrow> (real \<Rightarrow> orbit \<Rightarrow> real) \<Rightarrow> real list \<Rightarrow> real list \<Rightarrow> orbit \<Rightarrow> real list list list \<Rightarrow>
   real list list \<Rightarrow> real list \<Rightarrow> real list \<Rightarrow> nat \<Rightarrow> real \<Rightarrow> nat list \<Rightarrow> nat list \<Rightarrow> nat list \<Rightarrow>
   real list \<Rightarrow> bool \<Rightarrow> flt list option" where
  "swmodel_direct_s sched z_ip_s t k orb ldp istar ze zm ng splimit lcids pbids nsamples exptimes
     parallel =
     do {
       l0 \<leftarrow> item ldp 0;
       let npb = length l0;
       k0 \<leftarrow> item k 0;
       (gs, dg, weights) \<leftarrow> calculate_weights_2d k0 ze ng;
       ldw \<leftarrow> those (map (\<lambda>ipb. dot_mv weights (l0 ! ipb)) [0..<npb]);
       if parallel
       then eval_s_parallel sched z_ip_s t k orb istar zm dg ldp ldw splimit lcids pbids
              nsamples exptimes
       else eval_s_serial z_ip_s t k orb istar zm dg ldp ldw splimit lcids pbids
              nsamples exptimes
     }"


text \<open>
  The two branches as the specification words them, for comparison with the evaluators.
  The exact geometric branch: the weight-table row dotted with the limb-darkening profile
  (\<open>ldw\<close>), interpolated at the grazing parameter \<open>g = z / (1 + k)\<close>, multiplied by the
  circle-circle overlap area. The small-planet branch: the limb-darkening profile
  interpolated linearly at \<open>z\<close>, multiplied by the overlap area. Both give the flux
  \<open>(istar - iplanet * aplanet) / istar\<close>.
\<close>

definition spec_swift_flux :: "real \<Rightarrow> real \<Rightarrow> real list \<Rightarrow> real \<Rightarrow> real \<Rightarrow> flt option" where
  "spec_swift_flux k dg ldw istar z =
     map_option (\<lambda>ip. (Fin istar - Fin ip * Fin (circle_circle_intersection_area 1 k z)) / Fin istar)
       (lerp (z / (1 + k)) dg ldw)"

definition spec_small_planet_flux ::
  "real \<Rightarrow> real list \<Rightarrow> real list \<Rightarrow> real \<Rightarrow> real \<Rightarrow> flt option" where
  "spec_small_planet_flux k zm prof istar z =
     map_option (\<lambda>ip. (Fin istar - ip * Fin (circle_circle_intersection_area 1 k z)) / Fin istar)
       (interpolate_limb_darkening_s z zm prof)"

text \<open>
  The flux of one point as the specification words it: the mean over the \<open>ns\<close> sub-exposure
  samples of \<open>1\<close> where \<open>z > 1 + k\<close> and of the value of the chosen branch elsewhere. There
  is no mean of no samples.
\<close>

definition spec_point_flux ::
  "(real \<Rightarrow> flt option) \<Rightarrow> (real \<Rightarrow> orbit \<Rightarrow> real) \<Rightarrow> orbit \<Rightarrow> real \<Rightarrow> real \<Rightarrow> nat \<Rightarrow> real \<Rightarrow>
   flt option" where
  "spec_point_flux branch z_ip_s orb tj exptime ns k =
     do {
       fs \<leftarrow> those (map (\<lambda>isample.
                let z = z_ip_s (tj + exptime * ((real isample - 0.5) / real ns - 0.5)) orb
                in if z > 1 + k then Some 1 else branch z) [1..<ns + 1]);
       if ns = 0 then None else Some (foldl (+) 0 fs / Fin (real ns))
     }"

text \<open>
  No divisor of an evaluation for one parameter vector is zero: \<^verbatim>\<open>1 + _k\<close> for every
  radius ratio, \<^verbatim>\<open>istar[0, ipb]\<close> for every passband, the spacing of any two nodes of
  \<^verbatim>\<open>zm\<close>, the grazing step \<^verbatim>\<open>dg\<close> and the number of samples of every light curve.
\<close>

definition divisors_nonzero ::
  "real list \<Rightarrow> real list list \<Rightarrow> real list \<Rightarrow> real \<Rightarrow> nat list \<Rightarrow> bool" where
  "divisors_nonzero k istar zm dg nsamples \<longleftrightarrow>
     (\<forall>x \<in> set k. 1 + x \<noteq> 0) \<and> (\<forall>row \<in> set istar. \<forall>x \<in> set row. x \<noteq> 0) \<and>
     distinct zm \<and> dg \<noteq> 0 \<and> (\<forall>n \<in> set nsamples. 0 < n)"

subsection \<open>Flux evaluators for a population of parameter vectors\<close>

text \<open>
  \<^verbatim>\<open>k\<close>, \<^verbatim>\<open>a\<close> and \<^verbatim>\<open>i\<close> are the arrays the source tests with \<^verbatim>\<open>isnan\<close>: their
  entries are of type \<^typ>\<open>flt\<close>. The body of the loop over the points \<^verbatim>\<open>j\<close> is the same
  text in \<^verbatim>\<open>swmodel_direct_v\<close> and \<^verbatim>\<open>swmodel_interpolated_v\<close>: the value that
  \<^verbatim>\<open>flux[ipv, j]\<close>, zero before, holds after it. The loop stands inside the \<^verbatim>\<open>prange\<close>
  loop over the members: without samples the last statement divides \<open>0\<close> by \<open>0\<close> and
  stores \<^verbatim>\<open>nan\<close>.
\<close>









subsection \<open>Log likelihood\<close>




section \<open>Geometry\<close>

lemma fold_update_take:
  "n \<le> length a \<Longrightarrow>
   fold (\<lambda>i a. a[i := f i]) [0..<n] a = map f [0..<n] @ drop n a"
proof (induction n)
  case 0
  then show ?case by simp
next
  case (Suc n)
  then have "fold (\<lambda>i a. a[i := f i]) [0..<Suc n] a = (map f [0..<n] @ drop n a)[n := f n]"
    by simp
  also have "\<dots> = map f [0..<n] @ (drop n a)[0 := f n]"
    by (simp add: list_update_append)
  also have "(drop n a)[0 := f n] = f n # drop (Suc n) a"
    using Suc.prems by (simp flip: Cons_nth_drop_Suc [of n a])
  finally show ?case by simp
qed

lemma fold_update_all:
  "length a = n \<Longrightarrow> fold (\<lambda>i a. a[i := f i]) [0..<n] a = map f [0..<n]"
  using fold_update_take [of n a f] by simp

lemma area_v_body:
  "(\<lambda>i a.
        let b = bs ! i in
        if r1 < b - r2 then a[i := 0]
        else if r1 \<ge> b + r2 then a[i := pi * r2 ^ 2]
        else if b - r2 \<le> - r1 then a[i := pi * r1 ^ 2]
        else a[i := (r2 ^ 2 * arccos ((b ^ 2 + r2 ^ 2 - r1 ^ 2) / (2 * b * r2)) +
                     r1 ^ 2 * arccos ((b ^ 2 + r1 ^ 2 - r2 ^ 2) / (2 * b * r1)) -
                     0.5 * sqrt ((- b + r2 + r1) * (b + r2 - r1) * (b - r2 + r1) * (b + r2 + r1)))])
   = (\<lambda>i a. a[i := circle_circle_intersection_area r1 r2 (bs ! i)])"
  by (intro ext) (simp add: circle_circle_intersection_area_def Let_def)

lemma area_v_map:
  "circle_circle_intersection_area_v r1 r2 bs = map (circle_circle_intersection_area r1 r2) bs"
proof -
  have "circle_circle_intersection_area_v r1 r2 bs =
        map (\<lambda>i. circle_circle_intersection_area r1 r2 (bs ! i)) [0..<length bs]"
    unfolding circle_circle_intersection_area_v_def area_v_body
    by (rule fold_update_all) simp
  also have "\<dots> = map (circle_circle_intersection_area r1 r2) bs"
    by (simp add: map_nth flip: map_map [unfolded comp_def])
  finally show ?thesis .
qed

lemma circle_circle_intersection_area_regions:
  assumes "0 < r1" "0 < r2" "0 \<le> b"
  shows "(r1 < b - r2 \<longrightarrow> circle_circle_intersection_area r1 r2 b = 0)
       \<and> (b + r2 \<le> r1 \<longrightarrow> circle_circle_intersection_area r1 r2 b = pi * r2 ^ 2)
       \<and> (b - r2 \<le> - r1 \<longrightarrow> circle_circle_intersection_area r1 r2 b = pi * r1 ^ 2)
       \<and> (\<not> r1 < b - r2 \<and> \<not> b + r2 \<le> r1 \<and> \<not> b - r2 \<le> - r1 \<longrightarrow>
            circle_circle_intersection_area r1 r2 b = lens_area r1 r2 b)
       \<and> circle_circle_intersection_area r1 r2 0 = pi * (min r1 r2) ^ 2"
proof (intro conjI impI)
  assume "r1 < b - r2"
  then show "circle_circle_intersection_area r1 r2 b = 0"
    by (simp add: circle_circle_intersection_area_def)
next
  assume "b + r2 \<le> r1"
  then show "circle_circle_intersection_area r1 r2 b = pi * r2 ^ 2"
    using assms by (simp add: circle_circle_intersection_area_def)
next
  assume h: "b - r2 \<le> - r1"
  show "circle_circle_intersection_area r1 r2 b = pi * r1 ^ 2"
  proof (cases "b + r2 \<le> r1")
    case True
    with h assms have "r1 = r2" by linarith
    with True assms show ?thesis by (simp add: circle_circle_intersection_area_def)
  next
    case False
    with h assms show ?thesis by (simp add: circle_circle_intersection_area_def)
  qed
next
  assume "\<not> r1 < b - r2 \<and> \<not> b + r2 \<le> r1 \<and> \<not> b - r2 \<le> - r1"
  then show "circle_circle_intersection_area r1 r2 b = lens_area r1 r2 b"
    by (simp add: circle_circle_intersection_area_def lens_area_def)
next
  show "circle_circle_intersection_area r1 r2 0 = pi * (min r1 r2) ^ 2"
    using assms by (simp add: circle_circle_intersection_area_def min_def)
qed

lemma area_touching_lens:
  assumes "0 < r1" "0 < r2"
  shows "circle_circle_intersection_area r1 r2 (r1 + r2) = lens_area r1 r2 (r1 + r2)"
proof -
  have "\<not> r1 < (r1 + r2) - r2" "\<not> (r1 + r2) + r2 \<le> r1" "\<not> (r1 + r2) - r2 \<le> - r1"
    using assms by simp_all
  then show ?thesis
    unfolding circle_circle_intersection_area_def lens_area_def by (simp only: if_False)
qed

text \<open>
  Claim C1 (fails on the code). The first test of the source is strict,
  \<^verbatim>\<open>r1 < b - r2\<close>. For two touching circles, \<open>b = r1 + r2\<close> with \<open>r1, r2 > 0\<close>, none of
  the three tests holds: the scalar function and, cell by cell, the vectorised one do not
  return the constant \<^verbatim>\<open>0.0\<close> but evaluate the lens formula, two \<^verbatim>\<open>arccos\<close> and a square
  root, at the edge of their domains.
\<close>

theorem touching_circles_reach_the_lens_formula:
  assumes "0 < r1" "0 < r2"
  shows "\<not> r1 < (r1 + r2) - r2 \<and> \<not> (r1 + r2) + r2 \<le> r1 \<and> \<not> (r1 + r2) - r2 \<le> - r1
       \<and> circle_circle_intersection_area r1 r2 (r1 + r2) = lens_area r1 r2 (r1 + r2)
       \<and> circle_circle_intersection_area_v r1 r2 [r1 + r2] = [lens_area r1 r2 (r1 + r2)]"
proof -
  have g: "\<not> r1 < (r1 + r2) - r2" "\<not> (r1 + r2) + r2 \<le> r1" "\<not> (r1 + r2) - r2 \<le> - r1"
    using assms by simp_all
  show ?thesis
    using g area_touching_lens [OF assms] by (simp add: area_v_map)
qed

theorem touching_circles_reach_the_lens_formula_witness:
  "(0::real) < 1 \<and> (0::real) < 7 / 10
   \<and> \<not> (1::real) < (1 + 7 / 10) - 7 / 10
   \<and> circle_circle_intersection_area 1 (7 / 10) (1 + 7 / 10) = lens_area 1 (7 / 10) (1 + 7 / 10)
   \<and> circle_circle_intersection_area_v 1 (7 / 10) [1 + 7 / 10] = [lens_area 1 (7 / 10) (1 + 7 / 10)]"
  using touching_circles_reach_the_lens_formula [of 1 "7 / 10"]
  by simp

section \<open>Weight tables\<close>

lemma arccos_above_chord:
  assumes "- 1 < x" "x < 1"
  shows "x * sqrt (1 - x\<^sup>2) < arccos x"
proof -
  have th: "0 < arccos x" "arccos x < pi"
    using arccos_lt_bounded [OF assms] by simp_all
  have s: "sin (arccos x) = sqrt (1 - x\<^sup>2)"
    using assms by (simp add: sin_arccos)
  have spos: "0 < sin (arccos x)"
    using th by (rule sin_gt_zero)
  show ?thesis
  proof (cases "x \<le> 0")
    case True
    then have "x * sqrt (1 - x\<^sup>2) \<le> 0"
      using spos s by (simp add: mult_le_0_iff)
    with th show ?thesis by linarith
  next
    case False
    then have "x * sin (arccos x) < 1 * sin (arccos x)"
      using assms spos by (intro mult_strict_right_mono) simp_all
    also have "\<dots> \<le> arccos x"
      using th sin_x_le_x [of "arccos x"] by simp
    finally show ?thesis by (simp add: s)
  qed
qed

lemma div_mul_self: "d \<noteq> 0 \<Longrightarrow> n / d * d = (n::real)"
  by simp

lemma mul_div_cancel_right: "c \<noteq> 0 \<Longrightarrow> c * (n / (2 * d * c)) = n / (2 * (d::real))"
  by simp

lemma lens_area_pos:
  assumes r: "0 < r1" "0 < r2" and b: "\<bar>r1 - r2\<bar> < b" "b < r1 + r2"
  shows "0 < lens_area r1 r2 b"
proof -
  have bpos: "0 < b" using b by linarith
  define x where "x = (b\<^sup>2 + r2\<^sup>2 - r1\<^sup>2) / (2 * b * r2)"
  define y where "y = (b\<^sup>2 + r1\<^sup>2 - r2\<^sup>2) / (2 * b * r1)"
  define P where "P = (- b + r2 + r1) * (b + r2 - r1) * (b - r2 + r1) * (b + r2 + r1)"
  have dx: "0 < 2 * b * r2" and dy: "0 < 2 * b * r1"
    using r bpos by simp_all
  have f1: "0 < r1 - (b - r2)" "0 < r1 + (b - r2)" "0 < b + r2 + r1" "0 < b + r2 - r1"
       "0 < r2 - (b - r1)" "0 < r2 + (b - r1)"
    using b r by linarith+
  have x1: "x < 1"
  proof -
    have "0 < (r1 - (b - r2)) * (r1 + (b - r2))"
      using f1 by (intro mult_pos_pos)
    then have "b\<^sup>2 + r2\<^sup>2 - r1\<^sup>2 < 2 * b * r2"
      by (simp add: power2_eq_square algebra_simps)
    then show ?thesis
      unfolding x_def using dx by (simp only: divide_less_eq_1_pos)
  qed
  have x2: "- 1 < x"
  proof -
    have "0 < (b + r2 + r1) * (b + r2 - r1)"
      using f1 by (intro mult_pos_pos)
    then have "- (2 * b * r2) < b\<^sup>2 + r2\<^sup>2 - r1\<^sup>2"
      by (simp add: power2_eq_square algebra_simps)
    then have "- 1 * (2 * b * r2) < b\<^sup>2 + r2\<^sup>2 - r1\<^sup>2" by simp
    then show ?thesis
      unfolding x_def using dx by (simp only: pos_less_divide_eq)
  qed
  have y1: "y < 1"
  proof -
    have "0 < (r2 - (b - r1)) * (r2 + (b - r1))"
      using f1 by (intro mult_pos_pos)
    then have "b\<^sup>2 + r1\<^sup>2 - r2\<^sup>2 < 2 * b * r1"
      by (simp add: power2_eq_square algebra_simps)
    then show ?thesis
      unfolding y_def using dy by (simp only: divide_less_eq_1_pos)
  qed
  have y2: "- 1 < y"
  proof -
    have "0 < (b + r2 + r1) * (r1 + (b - r2))"
      using f1 by (intro mult_pos_pos)
    then have "- (2 * b * r1) < b\<^sup>2 + r1\<^sup>2 - r2\<^sup>2"
      by (simp add: power2_eq_square algebra_simps)
    then have "- 1 * (2 * b * r1) < b\<^sup>2 + r1\<^sup>2 - r2\<^sup>2" by simp
    then show ?thesis
      unfolding y_def using dy by (simp only: pos_less_divide_eq)
  qed
  have Px: "P = (2 * b * r2)\<^sup>2 * (1 - x\<^sup>2)"
  proof -
    have "(2 * b * r2)\<^sup>2 * (1 - x\<^sup>2) = (2 * b * r2)\<^sup>2 - (x * (2 * b * r2))\<^sup>2"
      by (simp add: algebra_simps power_mult_distrib)
    also have "x * (2 * b * r2) = b\<^sup>2 + r2\<^sup>2 - r1\<^sup>2"
      unfolding x_def by (rule div_mul_self) (use dx in linarith)
    also have "(2 * b * r2)\<^sup>2 - (b\<^sup>2 + r2\<^sup>2 - r1\<^sup>2)\<^sup>2 = P"
      unfolding P_def by (simp add: power2_eq_square algebra_simps)
    finally show ?thesis by simp
  qed
  have Py: "P = (2 * b * r1)\<^sup>2 * (1 - y\<^sup>2)"
  proof -
    have "(2 * b * r1)\<^sup>2 * (1 - y\<^sup>2) = (2 * b * r1)\<^sup>2 - (y * (2 * b * r1))\<^sup>2"
      by (simp add: algebra_simps power_mult_distrib)
    also have "y * (2 * b * r1) = b\<^sup>2 + r1\<^sup>2 - r2\<^sup>2"
      unfolding y_def by (rule div_mul_self) (use dy in linarith)
    also have "(2 * b * r1)\<^sup>2 - (b\<^sup>2 + r1\<^sup>2 - r2\<^sup>2)\<^sup>2 = P"
      unfolding P_def by (simp add: power2_eq_square algebra_simps)
    finally show ?thesis by simp
  qed
  have sx: "sqrt P = 2 * b * r2 * sqrt (1 - x\<^sup>2)"
    unfolding Px using dx by (simp add: real_sqrt_mult)
  have sy: "sqrt P = 2 * b * r1 * sqrt (1 - y\<^sup>2)"
    unfolding Py using dy by (simp add: real_sqrt_mult)
  have xy: "r2 * x + r1 * y = b"
  proof -
    have "r2 * x = (b\<^sup>2 + r2\<^sup>2 - r1\<^sup>2) / (2 * b)"
      unfolding x_def by (rule mul_div_cancel_right) (use r in simp)
    moreover have "r1 * y = (b\<^sup>2 + r1\<^sup>2 - r2\<^sup>2) / (2 * b)"
      unfolding y_def by (rule mul_div_cancel_right) (use r in simp)
    ultimately have "r2 * x + r1 * y = (2 * b\<^sup>2) / (2 * b)"
      by (simp add: add_divide_distrib [symmetric])
    also have "\<dots> = b" using bpos by (simp add: power2_eq_square)
    finally show ?thesis .
  qed
  have half: "0.5 * sqrt P = r2\<^sup>2 * (x * sqrt (1 - x\<^sup>2)) + r1\<^sup>2 * (y * sqrt (1 - y\<^sup>2))"
  proof -
    have "r2\<^sup>2 * (x * sqrt (1 - x\<^sup>2)) = r2 * x * sqrt P / (2 * b)"
      unfolding sx using bpos r by (simp add: power2_eq_square)
    moreover have "r1\<^sup>2 * (y * sqrt (1 - y\<^sup>2)) = r1 * y * sqrt P / (2 * b)"
      unfolding sy using bpos r by (simp add: power2_eq_square)
    ultimately have "r2\<^sup>2 * (x * sqrt (1 - x\<^sup>2)) + r1\<^sup>2 * (y * sqrt (1 - y\<^sup>2))
        = (r2 * x + r1 * y) * sqrt P / (2 * b)"
      by (simp add: add_divide_distrib [symmetric] distrib_right)
    also have "\<dots> = 0.5 * sqrt P"
      unfolding xy using bpos by simp
    finally show ?thesis by simp
  qed
  have "lens_area r1 r2 b = r2\<^sup>2 * arccos x + r1\<^sup>2 * arccos y - 0.5 * sqrt P"
    unfolding lens_area_def x_def y_def P_def ..
  also have "\<dots> = r2\<^sup>2 * (arccos x - x * sqrt (1 - x\<^sup>2)) + r1\<^sup>2 * (arccos y - y * sqrt (1 - y\<^sup>2))"
    unfolding half by (simp add: algebra_simps)
  finally have eq: "lens_area r1 r2 b =
      r2\<^sup>2 * (arccos x - x * sqrt (1 - x\<^sup>2)) + r1\<^sup>2 * (arccos y - y * sqrt (1 - y\<^sup>2))" .
  have "0 < r2\<^sup>2 * (arccos x - x * sqrt (1 - x\<^sup>2))"
    using r arccos_above_chord [OF x2 x1] by (intro mult_pos_pos) simp_all
  moreover have "0 < r1\<^sup>2 * (arccos y - y * sqrt (1 - y\<^sup>2))"
    using r arccos_above_chord [OF y2 y1] by (intro mult_pos_pos) simp_all
  ultimately show ?thesis unfolding eq by linarith
qed

lemma area_unit_pos:
  assumes "0 < k" "k < 1" "0 \<le> b" "b < 1 + k"
  shows "0 < circle_circle_intersection_area 1 k b"
proof -
  consider "b + k \<le> 1" | "1 < b + k" by linarith
  then show ?thesis
  proof cases
    case 1
    with assms show ?thesis by (simp add: circle_circle_intersection_area_def)
  next
    case 2
    with assms have "circle_circle_intersection_area 1 k b = lens_area 1 k b"
      by (simp add: circle_circle_intersection_area_def lens_area_def)
    moreover have "0 < lens_area 1 k b"
      using assms 2 by (intro lens_area_pos) (simp_all add: abs_if)
    ultimately show ?thesis by simp
  qed
qed


lemma fold_update_cell:
  "n \<le> length w \<Longrightarrow>
   fold (\<lambda>i w. w[i := g (w ! i)]) [0..<n] w = map g (take n w) @ drop n w"
proof (induction n)
  case 0
  then show ?case by simp
next
  case (Suc n)
  then have n: "n < length w" by simp
  have "fold (\<lambda>i w. w[i := g (w ! i)]) [0..<Suc n] w
        = (map g (take n w) @ drop n w)[n := g ((map g (take n w) @ drop n w) ! n)]"
    using Suc by simp
  also have "(map g (take n w) @ drop n w) ! n = w ! n"
    using n by (simp add: nth_append)
  also have "(map g (take n w) @ drop n w)[n := g (w ! n)]
        = map g (take n w) @ (drop n w)[0 := g (w ! n)]"
    using n by (simp add: list_update_append)
  also have "(drop n w)[0 := g (w ! n)] = g (w ! n) # drop (Suc n) w"
    using n by (simp flip: Cons_nth_drop_Suc [of n w])
  finally show ?case
    using n by (simp add: take_Suc_conv_app_nth)
qed

lemma weights_row_loop:
  assumes "Suc m \<le> length ze"
  shows "fold (\<lambda>i (a0, s, w).
             let a1 = circle_circle_intersection_area (ze ! i) k b;
                 w' = w[i := a1 - a0]
             in (a1, s + w' ! i, w'))
           [1..<Suc m]
           (circle_circle_intersection_area (ze ! 0) k b,
            circle_circle_intersection_area (ze ! 0) k b,
            (replicate (length ze) 0)[0 := circle_circle_intersection_area (ze ! 0) k b])
         = (circle_circle_intersection_area (ze ! m) k b,
            circle_circle_intersection_area (ze ! m) k b,
            map (\<lambda>i. if i = 0 then circle_circle_intersection_area (ze ! 0) k b
                      else circle_circle_intersection_area (ze ! i) k b
                           - circle_circle_intersection_area (ze ! (i - 1)) k b) [0..<Suc m]
            @ replicate (length ze - Suc m) 0)"
  using assms
proof (induction m)
  case 0
  then show ?case by (cases ze) simp_all
next
  case (Suc m)
  let ?A = "\<lambda>i. circle_circle_intersection_area (ze ! i) k b"
  let ?d = "\<lambda>i. if i = 0 then ?A 0 else ?A i - ?A (i - 1)"
  have len: "length (map ?d [0..<Suc m]) = Suc m" by simp
  have r: "replicate (length ze - Suc m) (0::real) = 0 # replicate (length ze - Suc (Suc m)) 0"
    using Suc.prems by (simp add: Suc_diff_Suc flip: replicate_Suc)
  have upd: "(map ?d [0..<Suc m] @ replicate (length ze - Suc m) 0)[Suc m := ?A (Suc m) - ?A m]
        = map ?d [0..<Suc (Suc m)] @ replicate (length ze - Suc (Suc m)) 0"
    unfolding r by (subst list_update_append) (simp del: upt_Suc add: upt_Suc_append)
  have nth: "(map ?d [0..<Suc (Suc m)] @ replicate (length ze - Suc (Suc m)) 0) ! Suc m
        = ?A (Suc m) - ?A m"
    by (subst nth_append) (simp del: upt_Suc add: nth_map_upt)
  have "[1..<Suc (Suc m)] = [1..<Suc m] @ [Suc m]" by simp
  then show ?case
    using Suc.IH Suc.prems upd nth by (simp del: upt_Suc add: Let_def)
qed


lemma weights_row_eq:
  assumes "ze \<noteq> []"
  shows "weights_row k ze b =
         map (\<lambda>i. (if i = 0 then circle_circle_intersection_area (ze ! 0) k b
                    else circle_circle_intersection_area (ze ! i) k b
                         - circle_circle_intersection_area (ze ! (i - 1)) k b)
                   / circle_circle_intersection_area (last ze) k b) [0..<length ze]"
proof -
  obtain m where m: "length ze = Suc m"
    using assms by (cases ze) auto
  have l: "last ze = ze ! m"
    using assms m by (simp add: last_conv_nth)
  have loop: "fold (\<lambda>i (a0, s, w).
             (circle_circle_intersection_area (ze ! i) k b,
              s + w[i := circle_circle_intersection_area (ze ! i) k b - a0] ! i,
              w[i := circle_circle_intersection_area (ze ! i) k b - a0]))
           [1..<Suc m]
           (circle_circle_intersection_area (ze ! 0) k b,
            circle_circle_intersection_area (ze ! 0) k b,
            (replicate (Suc m) 0)[0 := circle_circle_intersection_area (ze ! 0) k b])
         = (circle_circle_intersection_area (ze ! m) k b,
            circle_circle_intersection_area (ze ! m) k b,
            map (\<lambda>i. if i = 0 then circle_circle_intersection_area (ze ! 0) k b
                      else circle_circle_intersection_area (ze ! i) k b
                           - circle_circle_intersection_area (ze ! (i - 1)) k b) [0..<Suc m])"
    using weights_row_loop [of m ze k b] m by (simp add: Let_def del: upt_Suc replicate_Suc)
  have w00: "(replicate (Suc m) 0)[0 := circle_circle_intersection_area (ze ! 0) k b] ! 0
             = circle_circle_intersection_area (ze ! 0) k b"
    by simp
  show ?thesis
    unfolding weights_row_def Let_def m w00 loop prod.case
    by (subst fold_update_cell) (simp_all add: l del: upt_Suc)
qed

lemma length_weights_row: "ze \<noteq> [] \<Longrightarrow> length (weights_row k ze b) = length ze"
  by (simp add: weights_row_eq)

lemma sum_list_map_divide:
  "sum_list (map (\<lambda>i. f i / c) xs) = sum_list (map f xs) / (c::real)"
  by (induction xs) (simp_all add: add_divide_distrib)

lemma sum_list_telescope:
  "sum_list (map (\<lambda>i. if i = 0 then A 0 else A i - A (i - 1)) [0..<Suc m]) = (A m :: real)"
  by (induction m) simp_all

lemma sum_list_weights_row:
  assumes "ze \<noteq> []" "circle_circle_intersection_area (last ze) k b \<noteq> 0"
  shows "sum_list (weights_row k ze b) = 1"
proof -
  obtain m where m: "length ze = Suc m"
    using assms by (cases ze) auto
  have l: "last ze = ze ! m"
    using assms m by (simp add: last_conv_nth)
  let ?A = "\<lambda>i. circle_circle_intersection_area (ze ! i) k b"
  have "sum_list (weights_row k ze b)
        = sum_list (map (\<lambda>i. if i = 0 then ?A 0 else ?A i - ?A (i - 1)) [0..<Suc m]) / ?A m"
    unfolding weights_row_eq [OF assms(1)] m l
    by (rule sum_list_map_divide)
  also have "\<dots> = ?A m / ?A m"
    by (simp only: sum_list_telescope [of ?A m])
  also have "\<dots> = 1"
    using assms(2) l by simp
  finally show ?thesis .
qed


lemma length_linspace: "length (linspace a b n) = n"
  by (simp add: linspace_def)

lemma nth_linspace:
  "i < n \<Longrightarrow> linspace a b n ! i = a + real i * ((b - a) / real (n - 1))"
  by (auto simp: linspace_def)

lemma linspace_nonempty: "0 < n \<Longrightarrow> linspace a b n \<noteq> []"
  using length_linspace [of a b n] by auto

lemma mult_div_self: "d \<noteq> 0 \<Longrightarrow> d * (c / d) = (c::real)"
  by simp

lemma grazing_node_range:
  assumes "ig < ng"
  shows "0 \<le> linspace 0 (1 - 1 / 10 ^ 7) ng ! ig"
    and "linspace 0 (1 - 1 / 10 ^ 7) ng ! ig < 1"
proof -
  let ?c = "1 - 1 / 10 ^ 7 :: real"
  have g: "linspace 0 ?c ng ! ig = real ig * (?c / real (ng - 1))"
    using assms by (simp add: nth_linspace)
  show "0 \<le> linspace 0 ?c ng ! ig"
    unfolding g by simp
  show "linspace 0 ?c ng ! ig < 1"
  proof (cases "ng = 1")
    case True
    then show ?thesis unfolding g by simp
  next
    case False
    with assms have n: "0 < real (ng - 1)" and i: "real ig \<le> real (ng - 1)" by simp_all
    have "real ig * (?c / real (ng - 1)) \<le> real (ng - 1) * (?c / real (ng - 1))"
      using i n by (intro mult_right_mono) simp_all
    also have "\<dots> = ?c" by (rule mult_div_self) (use n in simp)
    also have "?c < 1" by simp
    finally show ?thesis unfolding g .
  qed
qed

lemma radius_node_range:
  assumes "ik < nk" "0 < k0" "k0 < 1" "0 < k1" "k1 < 1"
  shows "0 < linspace k0 k1 nk ! ik" and "linspace k0 k1 nk ! ik < 1"
proof -
  define u where "u = real ik / real (nk - 1)"
  have k: "linspace k0 k1 nk ! ik = (1 - u) * k0 + u * k1"
    using assms(1) by (simp add: nth_linspace u_def algebra_simps diff_divide_distrib)
  have u: "0 \<le> u" "u \<le> 1"
    using assms(1) by (auto simp: u_def divide_le_eq_1)
  have "0 < (1 - u) * k0 + u * k1"
  proof (cases "u = 0")
    case True
    with assms show ?thesis by simp
  next
    case False
    with u have "0 < u * k1" "0 \<le> (1 - u) * k0" using assms by simp_all
    then show ?thesis by linarith
  qed
  then show "0 < linspace k0 k1 nk ! ik" unfolding k .
  have "(1 - u) * k0 + u * k1 < 1"
  proof (cases "u = 0")
    case True
    with assms show ?thesis by simp
  next
    case False
    with u have "u * k1 < u * 1" using assms by (intro mult_strict_left_mono) simp_all
    then have a: "u * k1 < u" by simp
    have "(1 - u) * k0 \<le> (1 - u) * 1"
      using u assms by (intro mult_left_mono) simp_all
    then have b: "(1 - u) * k0 \<le> 1 - u" by simp
    from a b show ?thesis by linarith
  qed
  then show "linspace k0 k1 nk ! ik < 1" unfolding k .
qed

lemma weights_row_unit_sum:
  assumes "0 < k" "k < 1" "ze \<noteq> []" "last ze = 1" "ig < ng"
  shows "sum_list (weights_row k ze (linspace 0 (1 - 1 / 10 ^ 7) ng ! ig * (1 + k))) = 1"
proof -
  let ?g = "linspace 0 (1 - 1 / 10 ^ 7) ng ! ig"
  have "0 \<le> ?g * (1 + k)"
    using grazing_node_range(1) [OF assms(5)] assms(1) by simp
  moreover have "?g * (1 + k) < 1 * (1 + k)"
    using grazing_node_range(2) [OF assms(5)] assms(1) by (intro mult_strict_right_mono) simp_all
  ultimately have "0 < circle_circle_intersection_area 1 k (?g * (1 + k))"
    using assms(1,2) by (intro area_unit_pos) simp_all
  then show ?thesis
    using assms(3,4) by (intro sum_list_weights_row) simp_all
qed

lemma calculate_weights_2d_Some:
  assumes "2 \<le> ng" "ze \<noteq> []"
  shows "calculate_weights_2d k ze ng =
         Some (linspace 0 (1 - 1 / 10 ^ 7) ng,
               linspace 0 (1 - 1 / 10 ^ 7) ng ! 1 - linspace 0 (1 - 1 / 10 ^ 7) ng ! 0,
               map (\<lambda>ig. weights_row k ze (linspace 0 (1 - 1 / 10 ^ 7) ng ! ig * (1 + k))) [0..<ng])"
  using assms by (simp add: calculate_weights_2d_def item_def length_linspace linspace_nonempty Let_def)

lemma calculate_weights_3d_Some:
  assumes "2 \<le> ng" "ze \<noteq> []" "0 < nk"
  shows "calculate_weights_3d nk k0 k1 ze ng =
         Some ((k1 - k0) / real nk,
               linspace 0 (1 - 1 / 10 ^ 7) ng ! 1 - linspace 0 (1 - 1 / 10 ^ 7) ng ! 0,
               map (\<lambda>ik. map (\<lambda>ig. weights_row (linspace k0 k1 nk ! ik) ze
                                   (linspace 0 (1 - 1 / 10 ^ 7) ng ! ig * (1 + linspace k0 k1 nk ! ik)))
                            [0..<ng]) [0..<nk])"
  using assms by (simp add: calculate_weights_3d_def item_def length_linspace linspace_nonempty Let_def)

text \<open>
  The row sums in exact arithmetic. For a radius ratio \<open>k\<close> in \<open>(0, 1)\<close>, at least two
  grazing nodes and a z grid whose last edge is \<open>1\<close>, \<^verbatim>\<open>calculate_weights_2d\<close> returns a
  table of \<open>ng\<close> rows and each row sums to \<open>1\<close>; with \<open>k0\<close> and \<open>k1\<close> in \<open>(0, 1)\<close> and at
  least one radius ratio, \<^verbatim>\<open>calculate_weights_3d\<close> returns \<open>nk\<close> by \<open>ng\<close> rows and each of
  them sums to \<open>1\<close>. The row sum \<open>s\<close> is the overlap area at the last edge, which is
  positive because every grazing node is below \<open>1\<close>. This is a statement about real
  numbers: where an edge of the grid touches the disc of the planet the compiled code is
  in the lens formula at the edge of the domain of \<^verbatim>\<open>arccos\<close>, and a row of the float
  table can be \<^verbatim>\<open>nan\<close>.
\<close>

lemma weight_table_rows_sum_to_one_exact:
  assumes "0 < k" "k < 1" "2 \<le> ng" "ze \<noteq> []" "last ze = 1"
    and "0 < k0" "k0 < 1" "0 < k1" "k1 < 1" "0 < nk"
  shows "(\<exists>gs dg W. calculate_weights_2d k ze ng = Some (gs, dg, W) \<and> length W = ng \<and>
            (\<forall>ig < ng. sum_list (W ! ig) = 1))
       \<and> (\<exists>dk dg W. calculate_weights_3d nk k0 k1 ze ng = Some (dk, dg, W) \<and> length W = nk \<and>
            (\<forall>ik < nk. length (W ! ik) = ng \<and> (\<forall>ig < ng. sum_list (W ! ik ! ig) = 1)))"
proof (intro conjI)
  show "\<exists>gs dg W. calculate_weights_2d k ze ng = Some (gs, dg, W) \<and> length W = ng \<and>
            (\<forall>ig < ng. sum_list (W ! ig) = 1)"
    unfolding calculate_weights_2d_Some [OF assms(3,4)]
    using weights_row_unit_sum [OF assms(1,2,4,5)] by simp
next
  have "sum_list (weights_row (linspace k0 k1 nk ! ik) ze
          (linspace 0 (1 - 1 / 10 ^ 7) ng ! ig * (1 + linspace k0 k1 nk ! ik))) = 1"
    if "ik < nk" "ig < ng" for ik ig
    using radius_node_range [OF that(1) assms(6-9)] assms(4,5) that(2)
    by (intro weights_row_unit_sum)
  then show "\<exists>dk dg W. calculate_weights_3d nk k0 k1 ze ng = Some (dk, dg, W) \<and> length W = nk \<and>
            (\<forall>ik < nk. length (W ! ik) = ng \<and> (\<forall>ig < ng. sum_list (W ! ik ! ig) = 1))"
    unfolding calculate_weights_3d_Some [OF assms(3,4,10)] by simp
qed

text \<open>
  Claim C2 (fails on the code). Where the first edge of the z grid touches the disc of the
  planet, \<open>ze[0] = b - k\<close>, the test \<^verbatim>\<open>r1 < b - r2\<close> is false and the first cumulative area
  \<^verbatim>\<open>a0\<close> of the row is the value of the lens formula for two touching circles, two
  \<^verbatim>\<open>arccos\<close> at the edge of their domain. Every entry of the row is divided by the sum
  \<^verbatim>\<open>s\<close> that starts with \<^verbatim>\<open>a0\<close>. With the grid \<open>[1/4, 1/2, \<surd>(2/3), \<surd>(11/12), 1]\<close> of
  \<^verbatim>\<open>create_z_grid(0.5, 2, 3)\<close> and three grazing nodes this happens in the row of the
  middle node for \<open>k = 4999999/10000001\<close>. In exact arithmetic the row sums to \<open>1\<close> all the
  same. In the float arithmetic of the code the computed \<^verbatim>\<open>b - k\<close> equals \<^verbatim>\<open>ze[0]\<close> for a
  double two units in the last place above this \<open>k\<close>; there an argument of \<^verbatim>\<open>arccos\<close>
  rounds above \<open>1\<close>, and \<^verbatim>\<open>a0\<close>, \<^verbatim>\<open>s\<close> and the whole row are \<^verbatim>\<open>nan\<close>.
\<close>

theorem weights_row_starts_from_lens_value_at_touching_edge:
  assumes "0 < k" "ze \<noteq> []" "0 < ze ! 0"
  shows "\<not> ze ! 0 < (ze ! 0 + k) - k
       \<and> circle_circle_intersection_area (ze ! 0) k (ze ! 0 + k)
           = lens_area (ze ! 0) k (ze ! 0 + k)
       \<and> weights_row k ze (ze ! 0 + k) ! 0
           = lens_area (ze ! 0) k (ze ! 0 + k)
             / circle_circle_intersection_area (last ze) k (ze ! 0 + k)"
proof -
  have "0 < length ze" using assms(2) by simp
  then have "weights_row k ze (ze ! 0 + k) ! 0
      = circle_circle_intersection_area (ze ! 0) k (ze ! 0 + k)
        / circle_circle_intersection_area (last ze) k (ze ! 0 + k)"
    unfolding weights_row_eq [OF assms(2)] by simp
  then show ?thesis
    using area_touching_lens [OF assms(3,1)] by simp
qed

theorem weights_row_starts_from_lens_value_at_touching_edge_witness:
  "(case calculate_weights_2d (4999999 / 10000001) [1 / 4, 1 / 2, sqrt (2 / 3), sqrt (11 / 12), 1] 3 of
      None \<Rightarrow> False
    | Some (gs, dg, W) \<Rightarrow>
        length W = 3
        \<and> gs ! 1 * (1 + 4999999 / 10000001) = 1 / 4 + 4999999 / 10000001
        \<and> W ! 1 ! 0 = lens_area (1 / 4) (4999999 / 10000001) (1 / 4 + 4999999 / 10000001)
                      / circle_circle_intersection_area 1 (4999999 / 10000001)
                          (1 / 4 + 4999999 / 10000001))"
proof -
  define kt :: real where "kt = 4999999 / 10000001"
  define ze :: "real list" where "ze = [1 / 4, 1 / 2, sqrt (2 / 3), sqrt (11 / 12), 1]"
  define b :: real where "b = 1 / 4 + kt"
  have kt: "0 < kt" by (simp add: kt_def)
  have ze: "ze \<noteq> []" "ze ! 0 = 1 / 4" "last ze = 1" by (simp_all add: ze_def)
  have node: "linspace 0 (1 - 1 / 10 ^ 7) 3 ! 1 * (1 + kt) = b"
    by (simp add: nth_linspace kt_def b_def)
  have z0: "0 < ze ! 0" unfolding ze(2) by simp
  have "weights_row kt ze (ze ! 0 + kt) ! 0
      = lens_area (ze ! 0) kt (ze ! 0 + kt)
        / circle_circle_intersection_area (last ze) kt (ze ! 0 + kt)"
    using weights_row_starts_from_lens_value_at_touching_edge [OF kt ze(1) z0] by blast
  then have row: "weights_row kt ze b ! 0
      = lens_area (1 / 4) kt b / circle_circle_intersection_area 1 kt b"
    unfolding ze(2,3) b_def .
  have cw: "calculate_weights_2d kt ze 3 =
         Some (linspace 0 (1 - 1 / 10 ^ 7) 3,
               linspace 0 (1 - 1 / 10 ^ 7) 3 ! 1 - linspace 0 (1 - 1 / 10 ^ 7) 3 ! 0,
               map (\<lambda>ig. weights_row kt ze (linspace 0 (1 - 1 / 10 ^ 7) 3 ! ig * (1 + kt))) [0..<3])"
    using ze(1) by (intro calculate_weights_2d_Some) simp_all
  have w1: "map (\<lambda>ig. weights_row kt ze (linspace 0 (1 - 1 / 10 ^ 7) 3 ! ig * (1 + kt))) [0..<3] ! 1
      = weights_row kt ze b"
    unfolding node [symmetric] by simp
  show ?thesis
    unfolding kt_def [symmetric] ze_def [symmetric] b_def [symmetric] cw option.case prod.case
      w1 row node
    by simp
qed

section \<open>Reads of the grazing-parameter tables\<close>

lemma grazing_step:
  "2 \<le> ng \<Longrightarrow>
   linspace 0 (1 - 1 / 10 ^ 7) ng ! 1 - linspace 0 (1 - 1 / 10 ^ 7) ng ! 0
   = (1 - 1 / 10 ^ 7) / real (ng - 1)"
  by (simp add: nth_linspace)

lemma pyitem_nat: "pyitem xs (int i) = item xs i"
  by (simp add: pyitem_def item_def Let_def)

lemma pyitem_past: "int (length xs) \<le> i \<Longrightarrow> pyitem xs i = None"
  by (simp add: pyitem_def Let_def)

lemma lerp_past_table:
  fixes ldw :: "real list"
  assumes "0 < dg" "real (length ldw) - 1 \<le> g / dg" "g < 1"
  shows "lerp g dg ldw = None"
proof -
  have "real_of_int (int (length ldw) - 1) \<le> g / dg"
    using assms(2) by simp
  then have "int (length ldw) - 1 \<le> \<lfloor>g / dg\<rfloor>"
    by (simp only: le_floor_iff)
  then have "int (length ldw) \<le> \<lfloor>g / dg\<rfloor> + 1"
    by simp
  then have "pyitem ldw (\<lfloor>g / dg\<rfloor> + 1) = None"
    by (rule pyitem_past)
  then show ?thesis
    using assms(3) by (simp add: lerp_def Let_def split: Option.bind_split)
qed

lemma lerp_in_table:
  fixes ldw :: "real list"
  assumes "0 < dg" "0 \<le> g" "g / dg < real (length ldw) - 1" "g < 1"
  shows "\<exists>ig. ig + 1 < length ldw \<and> real ig \<le> g / dg \<and> g / dg < real ig + 1 \<and>
           lerp g dg ldw = Some ((1 - (g / dg - real ig)) * ldw ! ig
                                 + (g / dg - real ig) * ldw ! (ig + 1))"
proof -
  have lo: "0 \<le> g / dg" using assms(1,2) by simp
  define ig where "ig = nat \<lfloor>g / dg\<rfloor>"
  have fl: "\<lfloor>g / dg\<rfloor> = int ig"
    using lo by (simp add: ig_def)
  have "g / dg < real_of_int (int (length ldw) - 1)"
    using assms(3) by simp
  then have "\<lfloor>g / dg\<rfloor> < int (length ldw) - 1"
    by (simp only: floor_less_iff)
  then have ig: "ig + 1 < length ldw" using fl by simp
  have b: "real ig \<le> g / dg" "g / dg < real ig + 1"
    using fl floor_correct [of "g / dg"] by simp_all
  have g1: "\<not> 1 \<le> g" using assms(4) by simp
  have i0: "pyitem ldw (int ig) = Some (ldw ! ig)"
    using ig by (simp add: pyitem_nat item_def)
  have i1: "pyitem ldw (int ig + 1) = Some (ldw ! (ig + 1))"
    using ig by (simp add: pyitem_def Let_def nat_add_distrib)
  have "lerp g dg ldw = Some ((1 - (g / dg - real ig)) * ldw ! ig
                 + (g / dg - real ig) * ldw ! (ig + 1))"
    unfolding lerp_def Let_def fl using g1 i0 i1 assms(1) by simp
  with ig b show ?thesis by blast
qed

lemma im_p_s_past_table:
  assumes "0 < dg" "real (length weights) - 1 \<le> g / dg" "g < 1"
  shows "im_p_s g dg weights ldp = None"
proof -
  have "real_of_int (int (length weights) - 1) \<le> g / dg"
    using assms(2) by simp
  then have "int (length weights) - 1 \<le> \<lfloor>g / dg\<rfloor>"
    by (simp only: le_floor_iff)
  then have "int (length weights) \<le> \<lfloor>g / dg\<rfloor> + 1"
    by simp
  then have "pyitem weights (\<lfloor>g / dg\<rfloor> + 1) = None"
    by (rule pyitem_past)
  then show ?thesis
    using assms(3) by (simp add: im_p_s_def Let_def split: Option.bind_split)
qed

text \<open>
  Claim C10 (fails on the code). With \<open>ng = 2\<close> rows, \<^verbatim>\<open>calculate_weights_2d\<close> returns the
  step \<open>dg = 1 - 10\<^sup>-\<^sup>7\<close>. At the grazing value \<open>g = 1 - 10\<^sup>-\<^sup>7\<close>, which is below \<open>1\<close>, both
  \<^verbatim>\<open>lerp\<close> and \<^verbatim>\<open>im_p_s\<close> compute \<open>ig = 1\<close> and read row \<open>ig + 1 = 2\<close> of a table of two
  rows: the read is out of range.
\<close>

theorem lerp_reads_past_last_row:
  "(case calculate_weights_2d (1 / 10) [1 / 2, 1] 2 of
      None \<Rightarrow> False
    | Some (gs, dg, weights) \<Rightarrow>
        length weights = 2 \<and> dg = 1 - 1 / 10 ^ 7
        \<and> (0::real) \<le> 1 - 1 / 10 ^ 7 \<and> (1 - 1 / 10 ^ 7 :: real) < 1
        \<and> \<lfloor>(1 - 1 / 10 ^ 7) / dg\<rfloor> + 1 = 2
        \<and> lerp (1 - 1 / 10 ^ 7) dg [1, 1 / 2 :: real] = None
        \<and> im_p_s (1 - 1 / 10 ^ 7) dg weights [1, 1] = None)"
proof -
  define c :: real where "c = 1 - 1 / 10 ^ 7"
  define W where "W = map (\<lambda>ig. weights_row (1 / 10) [1 / 2, 1]
                              (linspace 0 (1 - 1 / 10 ^ 7) 2 ! ig * (1 + 1 / 10))) [0..<2]"
  have c: "0 < c" "c < 1" by (simp_all add: c_def)
  have dg: "linspace 0 (1 - 1 / 10 ^ 7) 2 ! 1 - linspace 0 (1 - 1 / 10 ^ 7) 2 ! 0 = c"
    using grazing_step [of 2] by (simp add: c_def)
  have cw: "calculate_weights_2d (1 / 10) [1 / 2, 1] 2 = Some (linspace 0 (1 - 1 / 10 ^ 7) 2, c, W)"
    unfolding W_def dg [symmetric] by (rule calculate_weights_2d_Some) simp_all
  have lw: "length W = 2" by (simp add: W_def)
  have q: "c / c = 1" using c by simp
  have l: "lerp c c [1, 1 / 2 :: real] = None"
    using c by (intro lerp_past_table) (simp_all add: q)
  have i: "im_p_s c c W [1, 1] = None"
    using c lw by (intro im_p_s_past_table) (simp_all add: q)
  show ?thesis
    unfolding cw c_def [symmetric] option.case prod.case
    using c lw l i by (simp add: q)
qed


lemma weights_row_centre_small:
  "weights_row (1 / 4) [1 / 4, 1] 0 = [1, 0]"
  by (simp add: weights_row_eq circle_circle_intersection_area_def upt_conv_Cons)

lemma weights_row_centre_large:
  "weights_row (1 / 2) [1 / 4, 1] 0 = [1 / 4, 3 / 4]"
  by (simp add: weights_row_eq circle_circle_intersection_area_def upt_conv_Cons power2_eq_square)

lemma im_p_s_3d_first_cell:
  assumes "0 < dg" "0 \<le> k - k0" "k - k0 < dg"
    and "length r00 = length ldp" "length r01 = length ldp"
    and "length r10 = length ldp" "length r11 = length ldp"
  shows "im_p_s_3d k 0 dk dg ([r00, r01] # [r10, r11] # rest) ldp k0 =
         Some (sum_list (map2 (*) r00 ldp) * (1 - (k - k0) / dg)
               + sum_list (map2 (*) r10 ldp) * ((k - k0) / dg))"
proof -
  have "0 \<le> (k - k0) / dg" "(k - k0) / dg < 1"
    using assms(1-3) by simp_all
  then have fk: "\<lfloor>(k - k0) / dg\<rfloor> = 0"
    by (simp add: floor_eq_iff)
  show ?thesis
    unfolding im_p_s_3d_def Let_def fk
    using assms(1,4-7) by (simp add: pyitem_def dot_vv_def Let_def)
qed

text \<open>
  Claim C7 (fails on the code). The table is built by \<^verbatim>\<open>calculate_weights_3d\<close> over
  \<open>ks = linspace(1/4, 3/4, 3)\<close> and \<open>gs = linspace(0, 1 - 10\<^sup>-\<^sup>7, 2)\<close> with the z grid
  \<open>[1/4, 1]\<close>. At the grid node \<open>k = ks[1] = 1/2\<close>, \<open>g = gs[0] = 0\<close> the node value
  \<open>dot(weights[1, 0], ldp)\<close> is \<open>1/4\<close> for \<open>ldp = [1, 0]\<close>, and \<^verbatim>\<open>im_p_s_3d\<close> returns
  another number: it divides \<open>k - k0\<close> by \<open>dg\<close>, finds \<open>ik = 0\<close> and blends the rows of
  \<open>ks[0]\<close> and \<open>ks[1]\<close>. The returned \<open>dk\<close> is \<open>(k1 - k0) / nk = 1/6\<close>, not the node spacing
  \<open>1/4\<close>, so dividing by it would not find the node either.
\<close>

theorem im_p_s_3d_misses_grid_node:
  "(case calculate_weights_3d 3 (1 / 4) (3 / 4) [1 / 4, 1] 2 of
      None \<Rightarrow> False
    | Some (dk, dg, W) \<Rightarrow>
        linspace (1 / 4) (3 / 4) 3 ! 1 = 1 / 2 \<and> linspace 0 (1 - 1 / 10 ^ 7) 2 ! 0 = 0
        \<and> dk = 1 / 6 \<and> dg = 1 - 1 / 10 ^ 7
        \<and> dot_vv (W ! 1 ! 0) [1, 0] = Some (1 / 4)
        \<and> im_p_s_3d (1 / 2) 0 dk dg W [1, 0] (1 / 4)
            = Some (1 - 3 / 4 * ((1 / 4) / (1 - 1 / 10 ^ 7)))
        \<and> 1 - 3 / 4 * ((1 / 4) / (1 - 1 / 10 ^ 7)) \<noteq> (1 / 4 :: real))"
proof -
  define c :: real where "c = 1 - 1 / 10 ^ 7"
  define ze :: "real list" where "ze = [1 / 4, 1]"
  define r01 where "r01 = weights_row (1 / 4) ze (c * (1 + 1 / 4))"
  define r11 where "r11 = weights_row (1 / 2) ze (c * (1 + 1 / 2))"
  define rest where
    "rest = [[weights_row (3 / 4) ze (0 * (1 + 3 / 4)), weights_row (3 / 4) ze (c * (1 + 3 / 4))]]"
  have c: "0 < c" "c < 1" "1 / 4 < c" by (simp_all add: c_def)
  have ks: "linspace (1 / 4) (3 / 4) 3 = [1 / 4, 1 / 2, 3 / 4]"
    by (simp add: linspace_def upt_conv_Cons)
  have gs: "linspace 0 (1 - 1 / 10 ^ 7) 2 = [0, c]"
    by (simp add: linspace_def upt_conv_Cons c_def)
  have len: "length r01 = 2" "length r11 = 2"
    by (simp_all add: r01_def r11_def ze_def length_weights_row)
  have cw: "calculate_weights_3d 3 (1 / 4) (3 / 4) [1 / 4, 1] 2 =
      Some (1 / 6, c, [[1, 0], r01] # [[1 / 4, 3 / 4], r11] # rest)"
    unfolding calculate_weights_3d_Some [of 2 "[1 / 4, 1]" 3, simplified] ks
    by (simp add: upt_conv_Cons weights_row_centre_small weights_row_centre_large
          r01_def r11_def rest_def ze_def gs [simplified])
  have v: "im_p_s_3d (1 / 2) 0 (1 / 6) c ([[1, 0], r01] # [[1 / 4, 3 / 4], r11] # rest) [1, 0] (1 / 4)
      = Some (1 - 3 / 4 * ((1 / 4) / c))"
    using c len by (subst im_p_s_3d_first_cell) (simp_all add: algebra_simps)
  have ne: "1 - 3 / 4 * ((1 / 4) / c) \<noteq> 1 / 4"
    by (simp add: c_def)
  have g0: "linspace 0 c 2 ! 0 = 0"
    by (simp add: linspace_def)
  show ?thesis
    unfolding cw option.case prod.case c_def [symmetric]
    using ks g0 v ne by (simp add: dot_vv_def)
qed

section \<open>Cell-wise loops and the limb-darkening interpolators\<close>

lemma those_map_upt:
  "those (map f xs) =
     (if \<forall>x \<in> set xs. f x \<noteq> None then Some (map (\<lambda>x. the (f x)) xs) else None)"
  by (induction xs) (auto split: option.splits)

lemma ofold_cells:
  assumes "distinct js" "\<forall>j \<in> set js. j < length s"
  shows "ofold (\<lambda>i s. Option.bind (f i) (\<lambda>v. Some (s[i := v]))) js s =
           (if \<forall>j \<in> set js. f j \<noteq> None
            then Some (map (\<lambda>i. if i \<in> set js then the (f i) else s ! i) [0..<length s])
            else None)"
  using assms
proof (induction js arbitrary: s)
  case Nil
  then show ?case by (simp add: map_nth)
next
  case (Cons j js)
  show ?case
  proof (cases "f j")
    case None
    then show ?thesis by auto
  next
    case (Some v)
    have d: "distinct js" "\<forall>i \<in> set js. i < length (s[j := v])" "j \<notin> set js" "j < length s"
      using Cons.prems by simp_all
    have "map (\<lambda>i. if i \<in> set js then the (f i) else s[j := v] ! i) [0..<length s]
        = map (\<lambda>i. if i \<in> set (j # js) then the (f i) else s ! i) [0..<length s]"
      using d Some by (intro map_cong) (auto simp: nth_list_update)
    then show ?thesis
      using Some Cons.IH [OF d(1,2)] by simp
  qed
qed

lemma ofold_schedule:
  assumes "schedule n js" "length s = n"
  shows "ofold (\<lambda>i s. Option.bind (f i) (\<lambda>v. Some (s[i := v]))) js s = those (map f [0..<n])"
proof -
  have js: "distinct js" "set js = {0..<n}"
    using assms(1) by (simp_all add: schedule_def)
  have "map (\<lambda>i. if i \<in> set js then the (f i) else s ! i) [0..<n] = map (\<lambda>i. the (f i)) [0..<n]"
    using js by (intro map_cong) simp_all
  then show ?thesis
    using js assms(2) by (simp add: ofold_cells those_map_upt)
qed

lemma schedule_upt: "schedule n [0..<n]"
  by (simp add: schedule_def)


lemma pyitem_nth: "i < length xs \<Longrightarrow> pyitem xs (int i) = Some (xs ! i)"
  by (simp add: pyitem_def Let_def)

lemma pyitem_Suc: "Suc i < length xs \<Longrightarrow> pyitem xs (int i + 1) = Some (xs ! Suc i)"
  by (simp add: pyitem_def Let_def nat_add_distrib)

lemma pyitem_last: "xs \<noteq> [] \<Longrightarrow> pyitem xs (- 1) = Some (last xs)"
  by (cases xs rule: rev_cases) (simp_all add: pyitem_def Let_def nth_append)

lemma walk_up_bracket:
  assumes "Suc i < length mz" "mz ! i < z" "z \<le> last mz"
  shows "\<exists>j. walk_up z mz (int i) = Some (int j) \<and> Suc j < length mz \<and>
              mz ! j \<le> z \<and> z \<le> mz ! Suc j"
  using assms
proof (induction "length mz - i" arbitrary: i)
  case 0
  then show ?case by simp
next
  case (Suc d)
  have item: "pyitem mz (int i + 1) = Some (mz ! Suc i)"
    using Suc.prems(1) by (rule pyitem_Suc)
  show ?case
  proof (cases "z > mz ! Suc i")
    case True
    have "last mz = mz ! (length mz - 1)"
      using Suc.prems(1) by (intro last_conv_nth) auto
    then have "Suc i \<noteq> length mz - 1"
      using True Suc.prems(3) by auto
    then have lt: "Suc (Suc i) < length mz"
      using Suc.prems(1) by simp
    have "d = length mz - Suc i" using Suc.hyps(2) by simp
    from Suc.hyps(1) [OF this lt True Suc.prems(3)]
    obtain j where "walk_up z mz (int (Suc i)) = Some (int j)" "Suc j < length mz"
      "mz ! j \<le> z" "z \<le> mz ! Suc j" by blast
    moreover have "walk_up z mz (int i) = walk_up z mz (int (Suc i))"
      using True item by (subst walk_up.simps) (simp add: add.commute)
    ultimately show ?thesis by auto
  next
    case False
    then have "walk_up z mz (int i) = Some (int i)"
      using item by (subst walk_up.simps) simp
    with False Suc.prems show ?thesis by auto
  qed
qed

lemma walk_down_bracket:
  assumes "i < length mz" "mz ! 0 \<le> z"
  shows "\<exists>j. walk_down z mz (int i) = Some (int j) \<and> j \<le> i \<and> mz ! j \<le> z \<and>
              (j < i \<longrightarrow> z < mz ! Suc j)"
  using assms
proof (induction i)
  case 0
  then have "walk_down z mz (int 0) = Some (int 0)"
    by (subst walk_down.simps) (simp add: pyitem_def Let_def)
  with 0 show ?case by auto
next
  case (Suc i)
  have item: "pyitem mz (int (Suc i)) = Some (mz ! Suc i)"
    using Suc.prems(1) by (rule pyitem_nth)
  show ?case
  proof (cases "z < mz ! Suc i")
    case True
    from Suc.IH Suc.prems obtain j where j: "walk_down z mz (int i) = Some (int j)" "j \<le> i"
      "mz ! j \<le> z" "j < i \<longrightarrow> z < mz ! Suc j" by auto
    have "walk_down z mz (int (Suc i)) = walk_down z mz (int i)"
      using True item by (subst walk_down.simps) simp
    with j True show ?thesis
      by (intro exI [of _ j]) (auto simp: le_less)
  next
    case False
    then have "walk_down z mz (int (Suc i)) = Some (int (Suc i))"
      using item by (subst walk_down.simps) simp
    with False show ?thesis by (intro exI [of _ "Suc i"]) simp
  qed
qed

lemma interpolate_bracket:
  assumes "sorted_wrt (<) mz" "mz ! 0 = 0" "length ldp = length mz"
    and "3 \<le> length mz \<or> (length mz = 2 \<and> z < mz ! 1)"
    and "0 \<le> z" "z \<le> last mz"
  shows "\<exists>j. Suc j < length mz \<and> mz ! j \<le> z \<and> z \<le> mz ! Suc j \<and>
             interpolate_limb_darkening_s z mz ldp =
             Some (Fin ((1 - (z - mz ! j) / (mz ! Suc j - mz ! j)) * ldp ! j
                        + (z - mz ! j) / (mz ! Suc j - mz ! j) * ldp ! Suc j))"
proof -
  define i0 where "i0 = length mz div 2"
  have i0: "i0 < length mz" "Suc i0 < length mz \<or> z < mz ! i0"
    using assms(4) by (auto simp: i0_def)
  have ne: "mz \<noteq> []" using assms(4) by auto
  have "\<exists>j. (if z > mz ! i0 then walk_up z mz (int i0) else walk_down z mz (int i0)) = Some (int j)
            \<and> Suc j < length mz \<and> mz ! j \<le> z \<and> z \<le> mz ! Suc j"
  proof (cases "z > mz ! i0")
    case True
    with i0(2) have "Suc i0 < length mz" by simp
    then show ?thesis using walk_up_bracket [OF _ True assms(6)] True by simp
  next
    case False
    from walk_down_bracket [of i0 mz z] i0(1) assms(2,5)
    obtain j where j: "walk_down z mz (int i0) = Some (int j)" "j \<le> i0" "mz ! j \<le> z"
      "j < i0 \<longrightarrow> z < mz ! Suc j" by auto
    have "Suc j < length mz \<and> z \<le> mz ! Suc j"
    proof (cases "j < i0")
      case True
      with j i0(1) show ?thesis by simp
    next
      case f: False
      with j have e: "j = i0" by simp
      with j(3) i0(2) have s: "Suc i0 < length mz" by auto
      then have "mz ! i0 < mz ! Suc i0"
        using assms(1) by (simp add: sorted_wrt_iff_nth_less)
      with e s False show ?thesis by simp
    qed
    with j False show ?thesis by auto
  qed
  then obtain j where j: "(if z > mz ! i0 then walk_up z mz (int i0) else walk_down z mz (int i0))
      = Some (int j)" "Suc j < length mz" "mz ! j \<le> z" "z \<le> mz ! Suc j" by blast
  have "mz ! j < mz ! Suc j"
    using assms(1) j(2) by (simp add: sorted_wrt_iff_nth_less)
  then have sp: "mz ! Suc j \<noteq> mz ! j" by simp
  have "interpolate_limb_darkening_s z mz ldp =
        Some (Fin ((1 - (z - mz ! j) / (mz ! Suc j - mz ! j)) * ldp ! j
                   + (z - mz ! j) / (mz ! Suc j - mz ! j) * ldp ! Suc j))"
    unfolding interpolate_limb_darkening_s_def Let_def i0_def [symmetric]
    using assms(3,5,6) i0(1) j ne sp
    by (simp add: pyitem_last pyitem_nth pyitem_Suc)
  with j show ?thesis by blast
qed


lemma interpolate_limb_darkening_v_map:
  "interpolate_limb_darkening_v zs mz ldp =
   those (map (\<lambda>z. interpolate_limb_darkening_s z mz ldp) zs)"
proof -
  have body: "(\<lambda>iz ld.
        let z = zs ! iz in
        if z < 0 then Some (ld[iz := NaN])
        else do {
          mlast \<leftarrow> pyitem mz (- 1);
          if z > mlast then do { l \<leftarrow> pyitem ldp (- 1); Some (ld[iz := Fin l]) }
          else do {
            let i0 = int (length mz div 2);
            m \<leftarrow> pyitem mz i0;
            i \<leftarrow> (if z > m then walk_up z mz i0 else walk_down z mz i0);
            mi \<leftarrow> pyitem mz i;
            mi1 \<leftarrow> pyitem mz (i + 1);
            if mi1 - mi = 0 then None
            else do {
              let a = (z - mi) / (mi1 - mi);
              li \<leftarrow> pyitem ldp i;
              li1 \<leftarrow> pyitem ldp (i + 1);
              Some (ld[iz := Fin ((1 - a) * li + a * li1)])
            }
          }
        })
      = (\<lambda>iz ld. Option.bind (interpolate_limb_darkening_s (zs ! iz) mz ldp)
                     (\<lambda>v. Some (ld[iz := v])))"
    by (intro ext) (simp add: interpolate_limb_darkening_s_def Let_def split: Option.bind_split)
  have "interpolate_limb_darkening_v zs mz ldp =
        those (map (\<lambda>iz. interpolate_limb_darkening_s (zs ! iz) mz ldp) [0..<length zs])"
    unfolding interpolate_limb_darkening_v_def body
    using ofold_schedule [where f = "\<lambda>iz. interpolate_limb_darkening_s (zs ! iz) mz ldp"
        and n = "length zs" and js = "[0..<length zs]" and s = "replicate (length zs) (Fin 0)"]
    by (simp add: schedule_upt)
  also have "map (\<lambda>iz. interpolate_limb_darkening_s (zs ! iz) mz ldp) [0..<length zs]
      = map (\<lambda>z. interpolate_limb_darkening_s z mz ldp) zs"
    by (rule nth_equalityI) simp_all
  finally show ?thesis .
qed

text \<open>
  Away from the last node of a grid of two nodes the interpolators do what they are meant
  to do. For a strictly increasing node array with \<open>mz[0] = 0\<close> and a profile of the same
  length, of at least three nodes, or of two nodes and a query other than \<open>mz[1]\<close>, the
  scalar interpolator returns NaN for \<open>z < 0\<close>, the last profile value for \<open>z\<close> above the
  last node, and otherwise the linear interpolation between two neighbouring nodes that
  bracket \<open>z\<close>; every read is inside the arrays, both \<^verbatim>\<open>while\<close> loops end, and the
  vectorised sibling returns the scalar results element by element.
\<close>

lemma interpolate_limb_darkening_domains:
  assumes "sorted_wrt (<) mz" "mz ! 0 = 0" "length ldp = length mz"
    and "3 \<le> length mz \<or> (length mz = 2 \<and> z \<noteq> mz ! 1)"
  shows "(z < 0 \<longrightarrow> interpolate_limb_darkening_s z mz ldp = Some NaN)
       \<and> (last mz < z \<longrightarrow> interpolate_limb_darkening_s z mz ldp = Some (Fin (last ldp)))
       \<and> (0 \<le> z \<and> z \<le> last mz \<longrightarrow>
            (\<exists>j. Suc j < length mz \<and> mz ! j \<le> z \<and> z \<le> mz ! Suc j \<and>
               interpolate_limb_darkening_s z mz ldp =
               Some (Fin ((1 - (z - mz ! j) / (mz ! Suc j - mz ! j)) * ldp ! j
                          + (z - mz ! j) / (mz ! Suc j - mz ! j) * ldp ! Suc j))))
       \<and> interpolate_limb_darkening_v zs mz ldp =
           those (map (\<lambda>z. interpolate_limb_darkening_s z mz ldp) zs)
       \<and> interpolate_limb_darkening_s z mz ldp \<noteq> None"
proof -
  have ne: "mz \<noteq> []" "ldp \<noteq> []" using assms(3,4) by auto
  have "mz ! 0 < mz ! (length mz - 1)"
    using assms(1,4) by (intro sorted_wrt_nth_less [of "(<)" mz]) auto
  then have "mz ! 0 \<le> mz ! (length mz - 1)" by simp
  then have last0: "0 \<le> last mz"
    using assms(2) ne by (simp add: last_conv_nth)
  have a: "interpolate_limb_darkening_s z mz ldp = Some NaN" if "z < 0"
    using that by (simp add: interpolate_limb_darkening_s_def)
  have b: "interpolate_limb_darkening_s z mz ldp = Some (Fin (last ldp))" if "last mz < z"
    using that last0 ne by (simp add: interpolate_limb_darkening_s_def pyitem_last)
  have c: "\<exists>j. Suc j < length mz \<and> mz ! j \<le> z \<and> z \<le> mz ! Suc j \<and>
               interpolate_limb_darkening_s z mz ldp =
               Some (Fin ((1 - (z - mz ! j) / (mz ! Suc j - mz ! j)) * ldp ! j
                          + (z - mz ! j) / (mz ! Suc j - mz ! j) * ldp ! Suc j))"
    if "0 \<le> z \<and> z \<le> last mz"
  proof -
    have "length mz = 2 \<Longrightarrow> last mz = mz ! 1"
      using ne by (simp add: last_conv_nth)
    with that assms(4) have "3 \<le> length mz \<or> (length mz = 2 \<and> z < mz ! 1)"
      by auto
    with that show ?thesis
      by (intro interpolate_bracket [OF assms(1-3)]) simp_all
  qed
  have d: "interpolate_limb_darkening_s z mz ldp \<noteq> None"
  proof -
    consider "z < 0" | "last mz < z" | "0 \<le> z \<and> z \<le> last mz" by linarith
    then show ?thesis using a b c by cases auto
  qed
  show ?thesis
    using a b c d interpolate_limb_darkening_v_map by blast
qed

text \<open>
  Claim C8 (fails on the code). The node search starts at \<^verbatim>\<open>i = mz.size // 2\<close> and, on the
  way down, stops at the first \<open>i\<close> with \<open>z \<ge> mz[i]\<close>; it then reads \<^verbatim>\<open>mz[i + 1]\<close> and
  \<^verbatim>\<open>ldp[i + 1]\<close>. With two nodes the start index is the last index: for the increasing
  nodes \<open>[0, 1]\<close>, a profile of the same length and the query \<open>z = mz[1] = 1\<close>, which is
  neither negative nor above the last node, the search stays at \<open>i = 1\<close> and the read of
  \<^verbatim>\<open>mz[2]\<close> is outside the array, in the scalar function and in its vectorised sibling.
\<close>

theorem interpolate_reads_past_two_nodes:
  "sorted_wrt (<) [0, 1 :: real] \<and> [0, 1 :: real] ! 0 = 0
   \<and> length [1, 1 / 2 :: real] = length [0, 1 :: real]
   \<and> \<not> (1 :: real) < 0 \<and> \<not> (1 :: real) > last [0, 1]
   \<and> int (length [0, 1 :: real] div 2) = 1
   \<and> walk_down 1 [0, 1] 1 = Some 1
   \<and> pyitem [0, 1 :: real] (1 + 1) = None
   \<and> interpolate_limb_darkening_s 1 [0, 1] [1, 1 / 2] = None
   \<and> interpolate_limb_darkening_v [1] [0, 1] [1, 1 / 2] = None"
proof -
  have w: "walk_down 1 [0, 1] 1 = Some 1"
    by (subst walk_down.simps) (simp add: pyitem_def)
  then have s: "interpolate_limb_darkening_s 1 [0, 1] [1, 1 / 2] = None"
    by (simp add: interpolate_limb_darkening_s_def pyitem_def)
  show ?thesis
    using w s by (simp add: interpolate_limb_darkening_v_map pyitem_def)
qed

section \<open>Log likelihood\<close>







section \<open>Serial and parallel evaluators\<close>

lemma those_map:
  "those (map f xs) =
     (if \<forall>x \<in> set xs. f x \<noteq> None then Some (map (\<lambda>x. the (f x)) xs) else None)"
  by (rule those_map_upt)

lemma those_map_nth:
  "those (map (\<lambda>i. f (xs ! i)) [0..<length xs]) = those (map f xs)"
proof -
  have "map (\<lambda>i. f (xs ! i)) [0..<length xs] = map f xs"
    by (rule nth_equalityI) simp_all
  then show ?thesis by simp
qed

lemma im_p_v2_lerp:
  "im_p_v2 gs dg ldw = those (map (\<lambda>g. lerp g dg ldw) gs)"
proof -
  have body: "(\<lambda>i im.
        if gs ! i \<ge> 1 then Some (im[i := 0])
        else if dg = 0 then None
        else
          let ng = gs ! i / dg;
              ig = \<lfloor>ng\<rfloor>;
              ag = ng - of_int ig
          in do {
            l0 \<leftarrow> pyitem ldw ig;
            l1 \<leftarrow> pyitem ldw (ig + 1);
            Some (im[i := (1 - ag) * l0 + ag * l1])
          })
      = (\<lambda>i im. Option.bind (lerp (gs ! i) dg ldw) (\<lambda>v. Some (im[i := v])))"
    by (intro ext) (simp add: lerp_def Let_def split: Option.bind_split)
  have "im_p_v2 gs dg ldw = those (map (\<lambda>i. lerp (gs ! i) dg ldw) [0..<length gs])"
    unfolding im_p_v2_def body
    using ofold_schedule [where f = "\<lambda>i. lerp (gs ! i) dg ldw" and n = "length gs"
        and js = "[0..<length gs]" and s = "replicate (length gs) 0"]
    by (simp add: schedule_upt)
  then show ?thesis
    by (simp only: those_map_nth [where f = "\<lambda>g. lerp g dg ldw"])
qed



lemma those_map2:
  "Option.bind (those (map g xs)) (\<lambda>vs. Some (map2 F vs (map A xs)))
   = those (map (\<lambda>x. map_option (\<lambda>v. F v (A x)) (g x)) xs)"
proof (cases "\<forall>x \<in> set xs. g x \<noteq> None")
  case True
  then have "map (\<lambda>x. the (map_option (\<lambda>v. F v (A x)) (g x))) xs
      = map (\<lambda>x. F (the (g x)) (A x)) xs"
    by (intro map_cong) (auto simp: option.map_sel)
  with True show ?thesis
    by (simp add: those_map map2_map_map)
next
  case False
  then show ?thesis by (auto simp: those_map)
qed

lemma flt_arith:
  "Fin x + Fin y = Fin (x + y)" "Fin x - Fin y = Fin (x - y)" "Fin x * Fin y = Fin (x * y)"
  "Fin x / Fin y = Fin (x / y)" "(0 :: flt) = Fin 0" "(1 :: flt) = Fin 1"
  "r *\<^sub>R Fin x = Fin (r * x)"
  by (simp_all add: plus_flt_def minus_flt_def times_flt_def divide_flt_def zero_flt_def
        one_flt_def scaleR_flt_def)





lemma eval_s_serial_cells:
  "eval_s_serial z_ip_s t k orb istar zm dg ldp ldw splimit lcids pbids nsamples exptimes =
   those (map (eval_s_point z_ip_s t k orb istar zm dg ldp ldw splimit lcids pbids nsamples
                 exptimes) [0..<length t])"
  unfolding eval_s_serial_def
  using ofold_schedule [where f = "eval_s_point z_ip_s t k orb istar zm dg ldp ldw splimit lcids
        pbids nsamples exptimes" and n = "length t" and js = "[0..<length t]"
      and s = "replicate (length t) 0"]
  by (simp add: schedule_upt)

lemma eval_s_parallel_cells:
  assumes "schedule (length t) sched"
  shows "eval_s_parallel sched z_ip_s t k orb istar zm dg ldp ldw splimit lcids pbids nsamples
           exptimes =
   those (map (eval_p_point z_ip_s t k orb istar zm dg ldp ldw splimit lcids pbids nsamples
                 exptimes) [0..<length t])"
  unfolding eval_s_parallel_def
  using ofold_schedule [where f = "eval_p_point z_ip_s t k orb istar zm dg ldp ldw splimit lcids
        pbids nsamples exptimes" and n = "length t" and js = sched
      and s = "replicate (length t) 0"] assms
  by simp

text \<open>With at least one sample the two bodies compute the same value.\<close>

lemma eval_p_point_sampled:
  assumes "j < length lcids \<longrightarrow> lcids ! j < length nsamples \<longrightarrow> 0 < nsamples ! (lcids ! j)"
  shows "eval_p_point z_ip_s t k orb istar zm dg ldp ldw splimit lcids pbids nsamples exptimes j
       = eval_s_point z_ip_s t k orb istar zm dg ldp ldw splimit lcids pbids nsamples exptimes j"
proof -
  have ns: "ns \<noteq> 0" if "item lcids j = Some ilc" "item nsamples ilc = Some ns" for ilc ns
    using that assms by (auto simp: item_def split: if_splits)
  show ?thesis
    unfolding eval_p_point_def eval_s_point_def
    by (intro Option.bind_cong refl) (auto dest: ns)
qed

lemma eval_p_point_eq:
  assumes "\<forall>n \<in> set nsamples. 0 < n"
  shows "eval_p_point z_ip_s t k orb istar zm dg ldp ldw splimit lcids pbids nsamples exptimes j
       = eval_s_point z_ip_s t k orb istar zm dg ldp ldw splimit lcids pbids nsamples exptimes j"
  using assms by (intro eval_p_point_sampled) simp


subsection \<open>Evaluations at points in transit\<close>

text \<open>
  The table of \<^verbatim>\<open>calculate_weights_2d(0.5, [0.25, 1.0], 2)\<close>: at the grazing node \<open>0\<close> the
  disc of the planet is centred on the star, a quarter of its area lies inside the first
  edge.
\<close>

lemma centre_table:
  obtains dg r where "0 < dg" "length r = 2"
    "calculate_weights_2d (1 / 2) [1 / 4, 1] 2 = Some ([0, dg], dg, [[1 / 4, 3 / 4], r])"
proof -
  define c :: real where "c = 1 - 1 / 10 ^ 7"
  define r where "r = weights_row (1 / 2) [1 / 4, 1] (c * (1 + 1 / 2))"
  have c: "0 < c" by (simp add: c_def)
  have gs: "linspace 0 c 2 = [0, c]"
    by (simp add: linspace_def upt_conv_Cons)
  have r: "length r = 2"
    by (simp add: r_def length_weights_row)
  have "calculate_weights_2d (1 / 2) [1 / 4, 1] 2 =
        Some (linspace 0 c 2, linspace 0 c 2 ! 1 - linspace 0 c 2 ! 0,
              map (\<lambda>ig. weights_row (1 / 2) [1 / 4, 1] (linspace 0 c 2 ! ig * (1 + 1 / 2))) [0..<2])"
    unfolding c_def by (rule calculate_weights_2d_Some) simp_all
  also have "\<dots> = Some ([0, c], c, [[1 / 4, 3 / 4], r])"
    unfolding gs by (simp add: upt_conv_Cons weights_row_centre_large r_def)
  finally show ?thesis
    using that [OF c r] by simp
qed

lemma lerp_first_node:
  fixes l0 l1 :: real
  assumes "0 < dg"
  shows "lerp 0 dg [l0, l1] = Some l0"
  using assms by (simp add: lerp_def pyitem_def)


lemma area_planet_inside: "circle_circle_intersection_area 1 (1 / 2) 0 = pi / 4"
  by (simp add: circle_circle_intersection_area_def power2_eq_square)


lemma area_planet_at_limb: "circle_circle_intersection_area 1 (1 / 2) (1 / 2) = pi / 4"
  by (simp add: circle_circle_intersection_area_def power2_eq_square)


lemma interpolate_in_transit:
  "interpolate_limb_darkening_s (1 / 2) [0, 1, 2] [1, 1 / 2, 1 / 4] = Some (Fin (3 / 4))"
proof -
  have "walk_down (1 / 2) [0, 1, 2] 0 = Some 0"
    by (subst walk_down.simps) (simp add: pyitem_def)
  then have "walk_down (1 / 2) [0, 1, 2] 1 = Some 0"
    by (subst walk_down.simps) (simp add: pyitem_def)
  then show ?thesis
    by (simp add: interpolate_limb_darkening_s_def pyitem_def)
qed

lemma eval_s_point_in_transit:
  "eval_s_point (\<lambda>t orb. t) [1 / 2, 5] [1 / 2] (0, 1, 1, 1, 0, 0) [[1]] [0, 1, 2] 1
     [[[1, 1 / 2, 1 / 4]]] [[1 / 2, 1]] (1 / 10) [0, 0] [0] [1] [0] 0 = Some (Fin (1 - pi / 6))"
  "eval_s_point (\<lambda>t orb. t) [1 / 2, 5] [1 / 2] (0, 1, 1, 1, 0, 0) [[1]] [0, 1, 2] 1
     [[[1, 1 / 2, 1 / 4]]] [[1 / 2, 1]] (1 / 10) [0, 0] [0] [1] [0] 1 = Some (Fin 1)"
proof -
  have fl: "\<lfloor>1 / 3 :: real\<rfloor> = 0" by (simp add: floor_eq_iff)
  have l: "lerp (1 / 3) 1 [1 / 2, 1 :: real] = Some (2 / 3)"
    by (simp add: lerp_def fl pyitem_def)
  show "eval_s_point (\<lambda>t orb. t) [1 / 2, 5] [1 / 2] (0, 1, 1, 1, 0, 0) [[1]] [0, 1, 2] 1
     [[[1, 1 / 2, 1 / 4]]] [[1 / 2, 1]] (1 / 10) [0, 0] [0] [1] [0] 0 = Some (Fin (1 - pi / 6))"
    by (simp add: eval_s_point_def item_def l area_planet_at_limb flt_arith)
  show "eval_s_point (\<lambda>t orb. t) [1 / 2, 5] [1 / 2] (0, 1, 1, 1, 0, 0) [[1]] [0, 1, 2] 1
     [[[1, 1 / 2, 1 / 4]]] [[1 / 2, 1]] (1 / 10) [0, 0] [0] [1] [0] 1 = Some (Fin 1)"
    by (simp add: eval_s_point_def item_def flt_arith)
qed




section \<open>Points without overlap\<close>























section \<open>Invalid population members\<close>





















section \<open>Branch selection\<close>

lemma ofold_accum:
  "ofold (\<lambda>x f. Option.bind (c x) (\<lambda>v. Some (f + v))) xs a
   = Option.bind (those (map c xs)) (\<lambda>vs. Some (foldl (+) a vs))"
proof (induction xs arbitrary: a)
  case Nil
  then show ?case by simp
next
  case (Cons x xs)
  show ?case
  proof (cases "c x")
    case None
    then show ?thesis by simp
  next
    case (Some v)
    then show ?thesis
      using Cons.IH [of "a + v"] by (cases "those (map c xs)") simp_all
  qed
qed

lemma eval_s_point_branch:
  assumes "j < length t" "j < length lcids" "lcids ! j < length pbids"
    and "lcids ! j < length nsamples" "lcids ! j < length exptimes"
    and "length k = 1 \<or> pbids ! (lcids ! j) < length k"
    and "istar \<noteq> []" "pbids ! (lcids ! j) < length (istar ! 0)"
    and "c = (\<lambda>z. if (if length k = 1 then k ! 0 else k ! (pbids ! (lcids ! j))) > splimit
                 then Option.bind (item ldw (pbids ! (lcids ! j))) (\<lambda>row.
                        spec_swift_flux (if length k = 1 then k ! 0 else k ! (pbids ! (lcids ! j)))
                          dg row (istar ! 0 ! (pbids ! (lcids ! j))) z)
                 else Option.bind (item ldp 0) (\<lambda>l0. Option.bind (item l0 (pbids ! (lcids ! j)))
                        (\<lambda>prof. spec_small_planet_flux
                           (if length k = 1 then k ! 0 else k ! (pbids ! (lcids ! j)))
                           zm prof (istar ! 0 ! (pbids ! (lcids ! j))) z)))"
  shows "eval_s_point z_ip_s t k orb istar zm dg ldp ldw splimit lcids pbids nsamples exptimes j
         = spec_point_flux c z_ip_s orb (t ! j) (exptimes ! (lcids ! j)) (nsamples ! (lcids ! j))
             (if length k = 1 then k ! 0 else k ! (pbids ! (lcids ! j)))"
proof -
  define ns where "ns = nsamples ! (lcids ! j)"
  define ipb where "ipb = pbids ! (lcids ! j)"
  define kk where "kk = (if length k = 1 then k ! 0 else k ! ipb)"
  have kk: "(if length k = 1 then item k 0 else item k ipb) = Some kk"
    using assms(6) by (auto simp: item_def kk_def ipb_def)
  let ?s = "\<lambda>isample. let z = z_ip_s (t ! j + exptimes ! (lcids ! j)
                                   * ((real isample - 0.5) / real ns - 0.5)) orb
                       in if z > 1 + kk then Some 1 else c z"
  have body: "(\<lambda>isample f. do {
                et \<leftarrow> item exptimes (lcids ! j);
                let time_offset = et * ((real isample - 0.5) / real ns - 0.5);
                tj \<leftarrow> item t j;
                let z = z_ip_s (tj + time_offset) orb;
                if z > 1 + kk then Some (f + 1)
                else do {
                  iplanet \<leftarrow>
                    (if kk > splimit then do {
                       row \<leftarrow> item ldw ipb;
                       map_option Fin (lerp (z / (1 + kk)) dg row)
                     }
                     else do {
                       l0 \<leftarrow> item ldp 0;
                       prof \<leftarrow> item l0 ipb;
                       interpolate_limb_darkening_s z zm prof
                     });
                  let aplanet = circle_circle_intersection_area 1 kk z;
                  i0 \<leftarrow> item istar 0;
                  ist \<leftarrow> item i0 ipb;
                  Some (f + (Fin ist - iplanet * Fin aplanet) / Fin ist)
                }
              }) = (\<lambda>isample f. Option.bind (?s isample) (\<lambda>v. Some (f + v)))"
    using assms(1,5,7,8)
    by (intro ext)
       (auto simp: item_def Let_def assms(9) spec_swift_flux_def spec_small_planet_flux_def
          kk_def ipb_def split: Option.bind_split)
  have i1: "item lcids j = Some (lcids ! j)" and i2: "item pbids (lcids ! j) = Some ipb"
    and i3: "item nsamples (lcids ! j) = Some ns"
    using assms(2-4) by (simp_all add: item_def ipb_def ns_def)
  have "eval_s_point z_ip_s t k orb istar zm dg ldp ldw splimit lcids pbids nsamples exptimes j
        = Option.bind (those (map ?s [1..<ns + 1]))
            (\<lambda>fs. if ns = 0 then None else Some (foldl (+) 0 fs / Fin (real ns)))"
    unfolding eval_s_point_def
    by (simp only: i1 i2 i3 kk Option.bind.simps body ofold_accum Option.bind_assoc)
  then show ?thesis
    unfolding spec_point_flux_def ns_def [symmetric] ipb_def [symmetric] kk_def [symmetric] .
qed


lemma those_map2_pre:
  "Option.bind (those (map g xs)) (\<lambda>vs. Some (map2 F (map h vs) (map A xs)))
   = those (map (\<lambda>x. map_option (\<lambda>v. F (h v) (A x)) (g x)) xs)"
proof -
  have "map2 F (map h vs) ys = map2 (\<lambda>v. F (h v)) vs ys" for vs ys
    by (simp add: zip_map1 split_def)
  then show ?thesis
    using those_map2 [of g xs "\<lambda>v. F (h v)" A] by simp
qed

lemma swmodel_direct_s_simple_swift:
  assumes "k \<noteq> []" "ldp \<noteq> []" "ldp ! 0 \<noteq> []" "istar \<noteq> []" "istar ! 0 \<noteq> []"
    and "k ! 0 > splimit"
  shows "swmodel_direct_s_simple z_ip_v t k orb ldp istar ze zm ng splimit =
         Option.bind (calculate_weights_2d (k ! 0) ze ng) (\<lambda>(gs, dg, weights).
           Option.bind (dot_mv weights (ldp ! 0 ! 0)) (\<lambda>ldw.
             those (map (spec_swift_flux (k ! 0) dg ldw (istar ! 0 ! 0)) (z_ip_v t orb))))"
proof -
  have items: "item k 0 = Some (k ! 0)" "item ldp 0 = Some (ldp ! 0)"
    "item (ldp ! 0) 0 = Some (ldp ! 0 ! 0)" "item istar 0 = Some (istar ! 0)"
    "item (istar ! 0) 0 = Some (istar ! 0 ! 0)"
    using assms(1-5) by (simp_all add: item_def)
  have th: "Option.bind (those (map (\<lambda>g. lerp g dg ldw) (map (\<lambda>x. x / (1 + k ! 0)) (z_ip_v t orb))))
          (\<lambda>im. Some (map2 (\<lambda>ip ap. (Fin (istar ! 0 ! 0) - ip * Fin ap) / Fin (istar ! 0 ! 0))
                         (map Fin im) (map (circle_circle_intersection_area 1 (k ! 0)) (z_ip_v t orb))))
        = those (map (spec_swift_flux (k ! 0) dg ldw (istar ! 0 ! 0)) (z_ip_v t orb))"
    for dg and ldw :: "real list"
    using those_map2_pre [of "\<lambda>z. lerp (z / (1 + k ! 0)) dg ldw" "z_ip_v t orb"
        "\<lambda>ip ap. (Fin (istar ! 0 ! 0) - ip * Fin ap) / Fin (istar ! 0 ! 0)" Fin
        "circle_circle_intersection_area 1 (k ! 0)"]
    by (simp add: comp_def spec_swift_flux_def [abs_def])
  show ?thesis
  proof (cases "calculate_weights_2d (k ! 0) ze ng")
    case None
    then show ?thesis
      using assms(6) by (simp add: swmodel_direct_s_simple_def items Let_def)
  next
    case (Some r)
    obtain gs dg weights where r: "r = (gs, dg, weights)" by (cases r)
    show ?thesis
    proof (cases "dot_mv weights (ldp ! 0 ! 0)")
      case None
      then show ?thesis
        using assms(6) Some r by (simp add: swmodel_direct_s_simple_def items Let_def)
    next
      case ldw: (Some ldw)
      show ?thesis
        using assms(6) Some r ldw th [of dg ldw]
        by (simp add: swmodel_direct_s_simple_def items Let_def im_p_v2_lerp area_v_map)
    qed
  qed
qed

lemma swmodel_direct_s_simple_small:
  assumes "k \<noteq> []" "ldp \<noteq> []" "ldp ! 0 \<noteq> []" "istar \<noteq> []" "istar ! 0 \<noteq> []"
    and "k ! 0 \<le> splimit"
  shows "swmodel_direct_s_simple z_ip_v t k orb ldp istar ze zm ng splimit =
         those (map (spec_small_planet_flux (k ! 0) zm (ldp ! 0 ! 0) (istar ! 0 ! 0))
                  (z_ip_v t orb))"
proof -
  have items: "item k 0 = Some (k ! 0)" "item ldp 0 = Some (ldp ! 0)"
    "item (ldp ! 0) 0 = Some (ldp ! 0 ! 0)" "item istar 0 = Some (istar ! 0)"
    "item (istar ! 0) 0 = Some (istar ! 0 ! 0)"
    using assms(1-5) by (simp_all add: item_def)
  have th: "Option.bind (those (map (\<lambda>z. interpolate_limb_darkening_s z zm (ldp ! 0 ! 0))
                                 (z_ip_v t orb)))
          (\<lambda>ips. Some (map2 (\<lambda>ip ap. (Fin (istar ! 0 ! 0) - ip * Fin ap) / Fin (istar ! 0 ! 0))
                         ips (map (circle_circle_intersection_area 1 (k ! 0)) (z_ip_v t orb))))
        = those (map (spec_small_planet_flux (k ! 0) zm (ldp ! 0 ! 0) (istar ! 0 ! 0))
                   (z_ip_v t orb))"
    using those_map2 [of "\<lambda>z. interpolate_limb_darkening_s z zm (ldp ! 0 ! 0)" "z_ip_v t orb"
        "\<lambda>ip ap. (Fin (istar ! 0 ! 0) - ip * Fin ap) / Fin (istar ! 0 ! 0)"
        "circle_circle_intersection_area 1 (k ! 0)"]
    by (simp add: spec_small_planet_flux_def [abs_def])
  show ?thesis
    using assms(6) th
    by (simp add: swmodel_direct_s_simple_def items Let_def interpolate_limb_darkening_v_map
          area_v_map)
qed


text \<open>
  Claim C5. The branch is chosen by comparing the radius ratio with \<^verbatim>\<open>splimit\<close>.
  \<^verbatim>\<open>swmodel_direct_s_simple\<close> compares \<open>k[0]\<close>: above the threshold the whole series is
  computed by the exact geometric branch (weight table of \<open>k[0]\<close> dotted with the profile,
  interpolated at \<open>g = z / (1 + k[0])\<close>, times the overlap area), otherwise by the
  small-planet branch (the profile interpolated at \<open>z\<close>, times the overlap area).
  \<^verbatim>\<open>_eval_s_serial\<close> computes every point with the body of its loop, which compares the
  radius ratio \<open>_k\<close> of the point's passband (\<open>k[0]\<close> when there is one radius ratio): above
  the threshold the point is the mean over its samples of the exact geometric branch,
  otherwise of the small-planet branch, with \<open>1\<close> for the samples where \<open>z > 1 + _k\<close>.
  \<^verbatim>\<open>_eval_s_parallel\<close> computes every point with the body of its own loop, which returns
  the same value when no divisor is zero. The hypotheses say that the index maps and the
  arrays read by the chosen branch are in range.
\<close>

theorem branch_chosen_by_radius_ratio:
  "(k \<noteq> [] \<and> ldp \<noteq> [] \<and> ldp ! 0 \<noteq> [] \<and> istar \<noteq> [] \<and> istar ! 0 \<noteq> [] \<longrightarrow>
      (k ! 0 > splimit \<longrightarrow>
         swmodel_direct_s_simple z_ip_v t k orb ldp istar ze zm ng splimit =
         Option.bind (calculate_weights_2d (k ! 0) ze ng) (\<lambda>(gs, dg, weights).
           Option.bind (dot_mv weights (ldp ! 0 ! 0)) (\<lambda>ldw.
             those (map (spec_swift_flux (k ! 0) dg ldw (istar ! 0 ! 0)) (z_ip_v t orb)))))
      \<and> (k ! 0 \<le> splimit \<longrightarrow>
         swmodel_direct_s_simple z_ip_v t k orb ldp istar ze zm ng splimit =
         those (map (spec_small_planet_flux (k ! 0) zm (ldp ! 0 ! 0) (istar ! 0 ! 0))
                  (z_ip_v t orb))))
   \<and> eval_s_serial z_ip_s t k orb istar zm dg ldp ldw splimit lcids pbids nsamples exptimes
       = those (map (eval_s_point z_ip_s t k orb istar zm dg ldp ldw splimit lcids pbids nsamples
                       exptimes) [0..<length t])
   \<and> (schedule (length t) sched \<longrightarrow>
       eval_s_parallel sched z_ip_s t k orb istar zm dg ldp ldw splimit lcids pbids nsamples
         exptimes
       = those (map (eval_p_point z_ip_s t k orb istar zm dg ldp ldw splimit lcids pbids nsamples
                       exptimes) [0..<length t]))
   \<and> (divisors_nonzero k istar zm dg nsamples \<longrightarrow>
       eval_p_point z_ip_s t k orb istar zm dg ldp ldw splimit lcids pbids nsamples exptimes j
       = eval_s_point z_ip_s t k orb istar zm dg ldp ldw splimit lcids pbids nsamples exptimes j)
   \<and> (j < length t \<and> j < length lcids \<and> lcids ! j < length pbids \<and>
       lcids ! j < length nsamples \<and> lcids ! j < length exptimes \<and>
       (length k = 1 \<or> pbids ! (lcids ! j) < length k) \<and>
       istar \<noteq> [] \<and> pbids ! (lcids ! j) < length (istar ! 0) \<longrightarrow>
      ((if length k = 1 then k ! 0 else k ! (pbids ! (lcids ! j))) > splimit \<and>
        pbids ! (lcids ! j) < length ldw \<longrightarrow>
         eval_s_point z_ip_s t k orb istar zm dg ldp ldw splimit lcids pbids nsamples exptimes j
         = spec_point_flux
             (spec_swift_flux (if length k = 1 then k ! 0 else k ! (pbids ! (lcids ! j))) dg
                (ldw ! (pbids ! (lcids ! j))) (istar ! 0 ! (pbids ! (lcids ! j))))
             z_ip_s orb (t ! j) (exptimes ! (lcids ! j)) (nsamples ! (lcids ! j))
             (if length k = 1 then k ! 0 else k ! (pbids ! (lcids ! j))))
      \<and> ((if length k = 1 then k ! 0 else k ! (pbids ! (lcids ! j))) \<le> splimit \<and>
          ldp \<noteq> [] \<and> pbids ! (lcids ! j) < length (ldp ! 0) \<longrightarrow>
         eval_s_point z_ip_s t k orb istar zm dg ldp ldw splimit lcids pbids nsamples exptimes j
         = spec_point_flux
             (spec_small_planet_flux (if length k = 1 then k ! 0 else k ! (pbids ! (lcids ! j)))
                zm (ldp ! 0 ! (pbids ! (lcids ! j))) (istar ! 0 ! (pbids ! (lcids ! j))))
             z_ip_s orb (t ! j) (exptimes ! (lcids ! j)) (nsamples ! (lcids ! j))
             (if length k = 1 then k ! 0 else k ! (pbids ! (lcids ! j)))))"
proof (intro conjI)
  show "k \<noteq> [] \<and> ldp \<noteq> [] \<and> ldp ! 0 \<noteq> [] \<and> istar \<noteq> [] \<and> istar ! 0 \<noteq> [] \<longrightarrow>
      (k ! 0 > splimit \<longrightarrow>
         swmodel_direct_s_simple z_ip_v t k orb ldp istar ze zm ng splimit =
         Option.bind (calculate_weights_2d (k ! 0) ze ng) (\<lambda>(gs, dg, weights).
           Option.bind (dot_mv weights (ldp ! 0 ! 0)) (\<lambda>ldw.
             those (map (spec_swift_flux (k ! 0) dg ldw (istar ! 0 ! 0)) (z_ip_v t orb)))))
      \<and> (k ! 0 \<le> splimit \<longrightarrow>
         swmodel_direct_s_simple z_ip_v t k orb ldp istar ze zm ng splimit =
         those (map (spec_small_planet_flux (k ! 0) zm (ldp ! 0 ! 0) (istar ! 0 ! 0))
                  (z_ip_v t orb)))"
    using swmodel_direct_s_simple_swift [of k ldp istar splimit z_ip_v t orb ze zm ng]
      swmodel_direct_s_simple_small [of k ldp istar splimit z_ip_v t orb ze zm ng]
    by blast
next
  show "eval_s_serial z_ip_s t k orb istar zm dg ldp ldw splimit lcids pbids nsamples exptimes
       = those (map (eval_s_point z_ip_s t k orb istar zm dg ldp ldw splimit lcids pbids nsamples
                       exptimes) [0..<length t])"
    by (rule eval_s_serial_cells)
next
  show "schedule (length t) sched \<longrightarrow>
       eval_s_parallel sched z_ip_s t k orb istar zm dg ldp ldw splimit lcids pbids nsamples
         exptimes
       = those (map (eval_p_point z_ip_s t k orb istar zm dg ldp ldw splimit lcids pbids nsamples
                       exptimes) [0..<length t])"
    using eval_s_parallel_cells by blast
next
  show "divisors_nonzero k istar zm dg nsamples \<longrightarrow>
       eval_p_point z_ip_s t k orb istar zm dg ldp ldw splimit lcids pbids nsamples exptimes j
       = eval_s_point z_ip_s t k orb istar zm dg ldp ldw splimit lcids pbids nsamples exptimes j"
    using eval_p_point_eq by (simp add: divisors_nonzero_def)
next
  define ipb where "ipb = pbids ! (lcids ! j)"
  define kk where "kk = (if length k = 1 then k ! 0 else k ! ipb)"
  define c where "c = (\<lambda>z. if kk > splimit
                 then Option.bind (item ldw ipb) (\<lambda>row. spec_swift_flux kk dg row (istar ! 0 ! ipb) z)
                 else Option.bind (item ldp 0) (\<lambda>l0. Option.bind (item l0 ipb)
                        (\<lambda>prof. spec_small_planet_flux kk zm prof (istar ! 0 ! ipb) z)))"
  have sw: "c = spec_swift_flux kk dg (ldw ! ipb) (istar ! 0 ! ipb)"
    if "kk > splimit" "ipb < length ldw"
    using that by (intro ext) (simp add: c_def item_def)
  have sm: "c = spec_small_planet_flux kk zm (ldp ! 0 ! ipb) (istar ! 0 ! ipb)"
    if "kk \<le> splimit" "ldp \<noteq> []" "ipb < length (ldp ! 0)"
    using that by (intro ext) (simp add: c_def item_def)
  have pt: "eval_s_point z_ip_s t k orb istar zm dg ldp ldw splimit lcids pbids nsamples exptimes j
         = spec_point_flux c z_ip_s orb (t ! j) (exptimes ! (lcids ! j)) (nsamples ! (lcids ! j)) kk"
    if "j < length t" "j < length lcids" "lcids ! j < length pbids"
      "lcids ! j < length nsamples" "lcids ! j < length exptimes"
      "length k = 1 \<or> ipb < length k" "istar \<noteq> []" "ipb < length (istar ! 0)"
    unfolding c_def kk_def ipb_def
    by (rule eval_s_point_branch [OF that [unfolded ipb_def] refl])
  show "j < length t \<and> j < length lcids \<and> lcids ! j < length pbids \<and>
       lcids ! j < length nsamples \<and> lcids ! j < length exptimes \<and>
       (length k = 1 \<or> pbids ! (lcids ! j) < length k) \<and>
       istar \<noteq> [] \<and> pbids ! (lcids ! j) < length (istar ! 0) \<longrightarrow>
      ((if length k = 1 then k ! 0 else k ! (pbids ! (lcids ! j))) > splimit \<and>
        pbids ! (lcids ! j) < length ldw \<longrightarrow>
         eval_s_point z_ip_s t k orb istar zm dg ldp ldw splimit lcids pbids nsamples exptimes j
         = spec_point_flux
             (spec_swift_flux (if length k = 1 then k ! 0 else k ! (pbids ! (lcids ! j))) dg
                (ldw ! (pbids ! (lcids ! j))) (istar ! 0 ! (pbids ! (lcids ! j))))
             z_ip_s orb (t ! j) (exptimes ! (lcids ! j)) (nsamples ! (lcids ! j))
             (if length k = 1 then k ! 0 else k ! (pbids ! (lcids ! j))))
      \<and> ((if length k = 1 then k ! 0 else k ! (pbids ! (lcids ! j))) \<le> splimit \<and>
          ldp \<noteq> [] \<and> pbids ! (lcids ! j) < length (ldp ! 0) \<longrightarrow>
         eval_s_point z_ip_s t k orb istar zm dg ldp ldw splimit lcids pbids nsamples exptimes j
         = spec_point_flux
             (spec_small_planet_flux (if length k = 1 then k ! 0 else k ! (pbids ! (lcids ! j)))
                zm (ldp ! 0 ! (pbids ! (lcids ! j))) (istar ! 0 ! (pbids ! (lcids ! j))))
             z_ip_s orb (t ! j) (exptimes ! (lcids ! j)) (nsamples ! (lcids ! j))
             (if length k = 1 then k ! 0 else k ! (pbids ! (lcids ! j))))"
    unfolding ipb_def [symmetric] kk_def [symmetric]
    using pt sw sm by metis
qed


text \<open>
  A series of two points: the first at \<open>z = 1/2\<close>, inside the transit of a planet of
  radius ratio \<open>1/2\<close>, the second clear of it. The exact geometric branch reads the table
  \<open>ldw\<close>, the small-planet branch the profile.
\<close>

lemma interpolate_at_centre:
  "interpolate_limb_darkening_s 0 [0, 1] [1, 1 / 2] = Some (Fin 1)"
proof -
  have "walk_down 0 [0, 1] 0 = Some 0"
    by (subst walk_down.simps) (simp add: pyitem_def)
  then have "walk_down 0 [0, 1] 1 = Some 0"
    by (subst walk_down.simps) (simp add: pyitem_def)
  then show ?thesis
    by (simp add: interpolate_limb_darkening_s_def pyitem_def)
qed

lemma eval_s_point_small_planet:
  "eval_s_point (\<lambda>t orb. t) [1 / 2, 5] [1 / 2] (0, 1, 1, 1, 0, 0) [[1]] [0, 1, 2] 1
     [[[1, 1 / 2, 1 / 4]]] [[1 / 2, 1]] 1 [0, 0] [0] [1] [0] 0 = Some (Fin (1 - 3 * pi / 16))"
  by (simp add: eval_s_point_def item_def interpolate_in_transit area_planet_at_limb flt_arith)

lemma swmodel_direct_s_simple_in_transit:
  "swmodel_direct_s_simple (\<lambda>t orb. t) [0] [1 / 2] (0, 1, 1, 1, 0, 0) [[[1, 1 / 2]]] [[1]]
     [1 / 4, 1] [0, 1] 2 (1 / 10) = Some [Fin (1 - 5 * pi / 32)]"
  "swmodel_direct_s_simple (\<lambda>t orb. t) [0] [1 / 2] (0, 1, 1, 1, 0, 0) [[[1, 1 / 2]]] [[1]]
     [1 / 4, 1] [0, 1] 2 1 = Some [Fin (1 - pi / 4)]"
proof -
  obtain dg r where t: "0 < dg" "length r = 2"
    "calculate_weights_2d (1 / 2) [1 / 4, 1] 2 = Some ([0, dg], dg, [[1 / 4, 3 / 4], r])"
    by (rule centre_table)
  obtain d where d: "dot_mv [[1 / 4, 3 / 4], r] [1, 1 / 2] = Some [5 / 8, d]"
    using t(2) by (simp add: dot_mv_def dot_vv_def)
  have "swmodel_direct_s_simple (\<lambda>t orb. t) [0] [1 / 2] (0, 1, 1, 1, 0, 0) [[[1, 1 / 2]]] [[1]]
     [1 / 4, 1] [0, 1] 2 (1 / 10) =
         Option.bind (calculate_weights_2d ([1 / 2] ! 0) [1 / 4, 1] 2) (\<lambda>(gs, dg, weights).
           Option.bind (dot_mv weights ([[[1, 1 / 2]]] ! 0 ! 0)) (\<lambda>ldw.
             those (map (spec_swift_flux ([1 / 2] ! 0) dg ldw ([[1]] ! 0 ! 0)) [0])))"
    by (rule swmodel_direct_s_simple_swift) simp_all
  then show "swmodel_direct_s_simple (\<lambda>t orb. t) [0] [1 / 2] (0, 1, 1, 1, 0, 0) [[[1, 1 / 2]]] [[1]]
     [1 / 4, 1] [0, 1] 2 (1 / 10) = Some [Fin (1 - 5 * pi / 32)]"
    using t(1,3) d
    by (simp add: spec_swift_flux_def lerp_first_node area_planet_inside flt_arith)
  have "swmodel_direct_s_simple (\<lambda>t orb. t) [0] [1 / 2] (0, 1, 1, 1, 0, 0) [[[1, 1 / 2]]] [[1]]
     [1 / 4, 1] [0, 1] 2 1 =
         those (map (spec_small_planet_flux ([1 / 2] ! 0) [0, 1] ([[[1, 1 / 2]]] ! 0 ! 0)
                       ([[1]] ! 0 ! 0)) [0])"
    by (rule swmodel_direct_s_simple_small) simp_all
  then show "swmodel_direct_s_simple (\<lambda>t orb. t) [0] [1 / 2] (0, 1, 1, 1, 0, 0) [[[1, 1 / 2]]] [[1]]
     [1 / 4, 1] [0, 1] 2 1 = Some [Fin (1 - pi / 4)]"
    by (simp add: spec_small_planet_flux_def interpolate_at_centre area_planet_inside flt_arith)
qed

theorem branch_chosen_by_radius_ratio_witness:
  "schedule (length [1 / 2, 5 :: real]) [1, 0]
   \<and> divisors_nonzero [1 / 2] [[1]] [0, 1, 2] 1 [1]
   \<and> (1 / 2 :: real) > 1 / 10 \<and> (1 / 2 :: real) \<le> 1
   \<and> eval_s_point (\<lambda>t orb. t) [1 / 2, 5] [1 / 2] (0, 1, 1, 1, 0, 0) [[1]] [0, 1, 2] 1
       [[[1, 1 / 2, 1 / 4]]] [[1 / 2, 1]] (1 / 10) [0, 0] [0] [1] [0] 0
     = Some (Fin (1 - pi / 6))
   \<and> spec_point_flux (spec_swift_flux (1 / 2) 1 [1 / 2, 1] 1) (\<lambda>t orb. t) (0, 1, 1, 1, 0, 0)
       (1 / 2) 0 1 (1 / 2)
     = Some (Fin (1 - pi / 6))
   \<and> eval_s_point (\<lambda>t orb. t) [1 / 2, 5] [1 / 2] (0, 1, 1, 1, 0, 0) [[1]] [0, 1, 2] 1
       [[[1, 1 / 2, 1 / 4]]] [[1 / 2, 1]] 1 [0, 0] [0] [1] [0] 0
     = Some (Fin (1 - 3 * pi / 16))
   \<and> spec_point_flux (spec_small_planet_flux (1 / 2) [0, 1, 2] [1, 1 / 2, 1 / 4] 1)
       (\<lambda>t orb. t) (0, 1, 1, 1, 0, 0) (1 / 2) 0 1 (1 / 2)
     = Some (Fin (1 - 3 * pi / 16))
   \<and> eval_p_point (\<lambda>t orb. t) [1 / 2, 5] [1 / 2] (0, 1, 1, 1, 0, 0) [[1]] [0, 1, 2] 1
       [[[1, 1 / 2, 1 / 4]]] [[1 / 2, 1]] (1 / 10) [0, 0] [0] [1] [0] 0
     = Some (Fin (1 - pi / 6))
   \<and> swmodel_direct_s_simple (\<lambda>t orb. t) [0] [1 / 2] (0, 1, 1, 1, 0, 0) [[[1, 1 / 2]]] [[1]]
       [1 / 4, 1] [0, 1] 2 (1 / 10)
     = Some [Fin (1 - 5 * pi / 32)]
   \<and> Option.bind (calculate_weights_2d (1 / 2) [1 / 4, 1] 2) (\<lambda>(gs, dg, weights).
         Option.bind (dot_mv weights [1, 1 / 2]) (\<lambda>ldw.
           those (map (spec_swift_flux (1 / 2) dg ldw 1) [0])))
     = Some [Fin (1 - 5 * pi / 32)]
   \<and> swmodel_direct_s_simple (\<lambda>t orb. t) [0] [1 / 2] (0, 1, 1, 1, 0, 0) [[[1, 1 / 2]]] [[1]]
       [1 / 4, 1] [0, 1] 2 1
     = Some [Fin (1 - pi / 4)]
   \<and> those (map (spec_small_planet_flux (1 / 2) [0, 1] [1, 1 / 2] 1) [0])
     = Some [Fin (1 - pi / 4)]"
proof -
  have sc: "schedule (length [1 / 2, 5 :: real]) [1, 0]"
    by (auto simp: schedule_def)
  have d: "divisors_nonzero [1 / 2] [[1]] [0, 1, 2] 1 [1]"
    by (simp add: divisors_nonzero_def)
  note a = branch_chosen_by_radius_ratio [where k = "[1 / 2]" and ldp = "[[[1, 1 / 2, 1 / 4]]]"
        and istar = "[[1]]" and splimit = "1 / 10" and z_ip_s = "\<lambda>t orb. t" and t = "[1 / 2, 5]"
        and orb = "(0, 1, 1, 1, 0, 0)" and zm = "[0, 1, 2]" and dg = 1 and ldw = "[[1 / 2, 1]]"
        and lcids = "[0, 0]" and pbids = "[0]" and nsamples = "[1]" and exptimes = "[0]"
        and sched = "[1, 0]" and j = 0]
  note b = branch_chosen_by_radius_ratio [where k = "[1 / 2]" and ldp = "[[[1, 1 / 2, 1 / 4]]]"
        and istar = "[[1]]" and splimit = 1 and z_ip_s = "\<lambda>t orb. t" and t = "[1 / 2, 5]"
        and orb = "(0, 1, 1, 1, 0, 0)" and zm = "[0, 1, 2]" and dg = 1 and ldw = "[[1 / 2, 1]]"
        and lcids = "[0, 0]" and pbids = "[0]" and nsamples = "[1]" and exptimes = "[0]"
        and sched = "[1, 0]" and j = 0]
  note c = branch_chosen_by_radius_ratio [where k = "[1 / 2]" and ldp = "[[[1, 1 / 2]]]"
        and istar = "[[1]]" and splimit = "1 / 10" and z_ip_v = "\<lambda>t orb. t" and t = "[0]"
        and orb = "(0, 1, 1, 1, 0, 0)" and ze = "[1 / 4, 1]" and zm = "[0, 1]" and ng = 2]
  note e = branch_chosen_by_radius_ratio [where k = "[1 / 2]" and ldp = "[[[1, 1 / 2]]]"
        and istar = "[[1]]" and splimit = 1 and z_ip_v = "\<lambda>t orb. t" and t = "[0]"
        and orb = "(0, 1, 1, 1, 0, 0)" and ze = "[1 / 4, 1]" and zm = "[0, 1]" and ng = 2]
  show ?thesis
    using sc d a b c e eval_s_point_in_transit(1) eval_s_point_small_planet
      swmodel_direct_s_simple_in_transit
    by (simp del: One_nat_def)
qed

end
